theory Spec2Isabelle
  imports Complex_Main "HOL-Library.Word"
begin

unbundle bit_operations_syntax

section \<open>JavaScript values\<close>

text \<open>
  A JavaScript string is a sequence of 16-bit code units. \<open>lit\<close> turns an ASCII
  literal of the source into a string. A value of type \<open>string | null\<close> is an
  option; it is truthy when it is neither \<open>null\<close> nor the empty string. Where only
  the elements of a \<open>Uint8Array\<close> matter, the array is given by the list of its
  bytes.
\<close>

type_synonym jsstring = "16 word list"

type_synonym byte = "8 word"

definition lit :: "string \<Rightarrow> jsstring" where
  "lit s = map of_char s"

definition truthy :: "jsstring option \<Rightarrow> bool" where
  "truthy v = (case v of None \<Rightarrow> False | Some s \<Rightarrow> s \<noteq> [])"

text \<open>Exceptions of the platform and of the service, as values.\<close>

datatype error =
    RangeError
  | NotSupportedError
  | InvalidCharacterError
  | SyntaxError
  | GenerationFailed
  | Error jsstring

text \<open>
  \<open>String.prototype.trim\<close> removes the WhiteSpace and LineTerminator code units of
  ECMAScript from both ends.
\<close>

definition isWhiteSpace :: "16 word \<Rightarrow> bool" where
  "isWhiteSpace c =
     (c = 0x0009 \<or> c = 0x000A \<or> c = 0x000B \<or> c = 0x000C \<or> c = 0x000D \<or> c = 0x0020
      \<or> c = 0x00A0 \<or> c = 0x1680 \<or> (0x2000 \<le> c \<and> c \<le> 0x200A) \<or> c = 0x2028
      \<or> c = 0x2029 \<or> c = 0x202F \<or> c = 0x205F \<or> c = 0x3000 \<or> c = 0xFEFF)"

definition trim :: "jsstring \<Rightarrow> jsstring" where
  "trim s = rev (dropWhile isWhiteSpace (rev (dropWhile isWhiteSpace s)))"

text \<open>
  \<open>s.split(',')\<close> cuts \<open>s\<close> at every comma; the result always has at least one
  segment. \<open>xs[1]\<close> on the resulting array is \<open>undefined\<close> (here \<open>None\<close>) when
  there is no second segment.
\<close>

fun split_from :: "16 word \<Rightarrow> jsstring \<Rightarrow> jsstring \<Rightarrow> jsstring list" where
  "split_from sep acc [] = [rev acc]"
| "split_from sep acc (c # cs) =
     (if c = sep then rev acc # split_from sep [] cs else split_from sep (c # acc) cs)"

definition split :: "jsstring \<Rightarrow> 16 word \<Rightarrow> jsstring list" where
  "split s sep = split_from sep [] s"

definition index :: "'a list \<Rightarrow> nat \<Rightarrow> 'a option" where
  "index xs i = (if i < length xs then Some (xs ! i) else None)"

definition comma :: "16 word" where
  "comma = 0x2C"

text \<open>\<open>s.startsWith(p)\<close>.\<close>

definition startsWith :: "jsstring \<Rightarrow> jsstring \<Rightarrow> bool" where
  "startsWith s p = (take (length p) s = p)"

section \<open>Requests to the generative service (services/geminiService.ts)\<close>

text \<open>
  A part is \<open>{text}\<close> or \<open>{inlineData: {mimeType, data}}\<close>. The \<open>data\<close> field is
  whatever \<open>base64Data.split(',')[1]\<close> evaluates to, which may be \<open>undefined\<close>.
  A turn of a conversation is \<open>{role, parts}\<close>.
\<close>

datatype Part = Text jsstring | InlineData jsstring "jsstring option"

record Content =
  role :: jsstring
  parts :: "Part list"

text \<open>
  The media part the three request builders share:
  \<open>{inlineData: {mimeType: mimeType, data: base64Data.split(',')[1]}}\<close>.
\<close>

definition mediaPart :: "jsstring \<Rightarrow> jsstring \<Rightarrow> Part" where
  "mediaPart base64Data mimeType = InlineData mimeType (index (split base64Data comma) 1)"

text \<open>
  The guard \<open>base64Data && mimeType\<close> on two values of type \<open>string | null\<close>: it
  yields both strings when both are truthy.
\<close>

definition bothTruthy :: "jsstring option \<Rightarrow> jsstring option \<Rightarrow> (jsstring \<times> jsstring) option" where
  "bothTruthy base64Data mimeType =
     (case base64Data of
        None \<Rightarrow> None
      | Some b \<Rightarrow>
          (case mimeType of
             None \<Rightarrow> None
           | Some m \<Rightarrow> if b \<noteq> [] \<and> m \<noteq> [] then Some (b, m) else None))"

text \<open>
  The words of the specification for the data of a media part, "the substring of the
  media string after its first comma", as a definition of its own, to compare
  \<open>split(',')[1]\<close> with.
\<close>

definition after_first_comma :: "jsstring \<Rightarrow> jsstring" where
  "after_first_comma s = tl (dropWhile (\<lambda>c. c \<noteq> comma) s)"

subsection \<open>Arrays by reference\<close>

text \<open>
  \<open>chatWithStoryAssistant\<close> receives the history array by reference, copies it with
  \<open>[...history]\<close> and pushes onto the copy. The store maps references (positions) to
  arrays of turns, so that what happens to the caller's array can be stated. A reference
  outside the store cannot be passed by a well-typed caller; the builder returns
  \<open>None\<close> for it.
\<close>

type_synonym store = "Content list list"

definition spread :: "store \<Rightarrow> nat \<Rightarrow> (store \<times> nat) option" where
  "spread h a = (if a < length h then Some (h @ [h ! a], length h) else None)"

definition push :: "store \<Rightarrow> nat \<Rightarrow> Content \<Rightarrow> store" where
  "push h a x = h[a := (h ! a) @ [x]]"

definition user_role :: jsstring where
  "user_role = lit ''user''"

definition model_role :: jsstring where
  "model_role = lit ''model''"

text \<open>
  Lines 132 to 144 of the service: the \<open>contents\<close> array of the conversational
  request. The result is the store after the call and the reference of \<open>contents\<close>.
\<close>

definition chat_contents ::
  "store \<Rightarrow> nat \<Rightarrow> jsstring \<Rightarrow> jsstring option \<Rightarrow> jsstring option \<Rightarrow> (store \<times> nat) option" where
  "chat_contents h history message base64Data mimeType =
     (case spread h history of
        None \<Rightarrow> None
      | Some (h1, contents) \<Rightarrow>
          (case bothTruthy base64Data mimeType of
             Some (b, m) \<Rightarrow>
               Some (push h1 contents \<lparr>role = user_role, parts = [mediaPart b m, Text message]\<rparr>,
                     contents)
           | None \<Rightarrow>
               Some (push h1 contents \<lparr>role = user_role, parts = [Text message]\<rparr>, contents)))"

subsection \<open>The three requests\<close>

datatype Schema =
    SString "jsstring option"
  | SObject "(jsstring \<times> Schema) list" "jsstring list"
  | SArray Schema

record Config =
  temperature :: "real option"
  responseMimeType :: "jsstring option"
  responseSchema :: "Schema option"
  systemInstruction :: "jsstring option"

definition no_config :: Config where
  "no_config = \<lparr>temperature = None, responseMimeType = None, responseSchema = None,
     systemInstruction = None\<rparr>"

datatype Contents = Parts "Part list" | Turns "Content list"

record Request =
  model :: jsstring
  contents :: Contents
  config :: Config

definition nl :: jsstring where
  "nl = [0x0A]"

text \<open>\<open>response.text || fallback\<close>: the text may be undefined or empty.\<close>

definition or_else :: "jsstring option \<Rightarrow> jsstring \<Rightarrow> jsstring" where
  "or_else t fallback = (case t of None \<Rightarrow> fallback | Some s \<Rightarrow> if s = [] then fallback else s)"

text \<open>\<open>generateStoryFromMedia\<close>: the request it sends, and what it returns.\<close>

definition story_prompt :: "jsstring \<Rightarrow> jsstring \<Rightarrow> jsstring" where
  "story_prompt mediaType language =
     lit ''Analyze the mood, lighting, characters, and environment of this '' @ mediaType
     @ lit ''. '' @ nl
     @ lit ''  Ghostwrite a single, compelling opening paragraph for a literary story set in this world. '' @ nl
     @ lit ''  Write the story in '' @ language @ lit ''. '' @ nl
     @ lit ''  If Hindi, use poetic and literary Hindi (Devanagari script). '' @ nl
     @ lit ''  Focus on sensory details and establishing a unique atmosphere. Do not provide commentary, just the paragraph.''"

definition generateStoryFromMedia_request :: "jsstring \<Rightarrow> jsstring \<Rightarrow> jsstring \<Rightarrow> Request" where
  "generateStoryFromMedia_request base64Data mimeType language =
     (let mediaType = (if startsWith mimeType (lit ''video'') then lit ''video'' else lit ''image'');
          prompt = story_prompt mediaType language
      in \<lparr>model = lit ''gemini-3-pro-preview'',
          contents = Parts [mediaPart base64Data mimeType, Text prompt],
          config = no_config\<lparr>temperature := Some 1\<rparr>\<rparr>)"

definition generateStoryFromMedia_result :: "jsstring option \<Rightarrow> jsstring" where
  "generateStoryFromMedia_result response_text = or_else response_text (lit ''Failed to generate story.'')"

text \<open>\<open>generateStorySuggestions\<close>: the request it sends.\<close>

definition suggestions_prompt :: "jsstring option \<Rightarrow> jsstring \<Rightarrow> jsstring \<Rightarrow> jsstring" where
  \<open>suggestions_prompt mimeType paragraph language =
     lit ''Based on the provided ''
     @ (case mimeType of
          None \<Rightarrow> lit ''image''
        | Some m \<Rightarrow> if startsWith m (lit ''video'') then lit ''video'' else lit ''image'')
     @ lit '' and the following opening paragraph: "'' @ paragraph @ lit ''", '' @ nl
     @ lit ''  generate 3 diverse creative suggestions to continue the story. '' @ nl
     @ lit ''  Each suggestion should be short (1-2 sentences) and labeled as either 'plot', 'character', or 'setting'.'' @ nl
     @ lit ''  Write the suggestions in '' @ language @ lit ''.'' @ nl
     @ lit ''  Return the output as a valid JSON array of objects with "type" and "text" fields.''\<close>

definition suggestionSchema :: Schema where
  "suggestionSchema =
     SArray (SObject
       [(lit ''type'', SString (Some (lit ''Must be 'plot', 'character', or 'setting'' @ [0x27]))),
        (lit ''text'', SString None)]
       [lit ''type'', lit ''text''])"

definition generateStorySuggestions_request ::
  "jsstring option \<Rightarrow> jsstring option \<Rightarrow> jsstring \<Rightarrow> jsstring \<Rightarrow> Request" where
  "generateStorySuggestions_request base64Data mimeType paragraph language =
     (let prompt = suggestions_prompt mimeType paragraph language;
          parts0 = [Text prompt];
          parts1 = (case bothTruthy base64Data mimeType of
                      Some (b, m) \<Rightarrow> mediaPart b m # parts0
                    | None \<Rightarrow> parts0)
      in \<lparr>model = lit ''gemini-3-pro-preview'',
          contents = Parts parts1,
          config = no_config\<lparr>responseMimeType := Some (lit ''application/json''),
                             responseSchema := Some suggestionSchema\<rparr>\<rparr>)"

text \<open>
  \<open>chatWithStoryAssistant\<close>: the request it sends, with the store after building it, and
  what it returns.
\<close>

definition chat_instruction :: jsstring where
  "chat_instruction = lit ''You are a creative writing assistant. Help the user expand, refine, or critique their story based on the image/video and opening paragraph. Be encouraging and evocative in your feedback.''"

definition chatWithStoryAssistant_request ::
  "store \<Rightarrow> nat \<Rightarrow> jsstring \<Rightarrow> jsstring option \<Rightarrow> jsstring option \<Rightarrow> (store \<times> Request) option" where
  "chatWithStoryAssistant_request h history message base64Data mimeType =
     (case chat_contents h history message base64Data mimeType of
        None \<Rightarrow> None
      | Some (h1, contents_ref) \<Rightarrow>
          Some (h1, \<lparr>model = lit ''gemini-3-pro-preview'',
                     contents = Turns (h1 ! contents_ref),
                     config = no_config\<lparr>systemInstruction := Some chat_instruction\<rparr>\<rparr>))"

definition chatWithStoryAssistant_result :: "jsstring option \<Rightarrow> jsstring" where
  "chatWithStoryAssistant_result response_text =
     or_else response_text (lit ''I'm sorry, I couldn't process that.'')"

section \<open>The conversation (components/ChatBot.tsx)\<close>

datatype Role = User | Model

record Message =
  mrole :: Role
  text' :: jsstring

record ChatBotProps =
  media :: "jsstring option"
  mimeType :: "jsstring option"
  storyContext :: jsstring

record ChatBot =
  messages :: "Message list"
  input :: jsstring
  isLoading :: bool

definition greeting :: jsstring where
  "greeting = lit ''Tell me more about this world. Should we dive deeper into the characters or describe the setting further?''"

definition seed :: Message where
  "seed = \<lparr>mrole = Model, text' = greeting\<rparr>"

definition ChatBot_init :: ChatBot where
  "ChatBot_init = \<lparr>messages = [seed], input = [], isLoading = False\<rparr>"

text \<open>
  The two state updaters of \<open>handleSend\<close>:
  \<open>prev => [...prev, {role: 'user', text}]\<close> and \<open>prev => [...prev, {role: 'model', text}]\<close>.
\<close>

definition appendUser :: "jsstring \<Rightarrow> Message list \<Rightarrow> Message list" where
  "appendUser t prev = prev @ [\<lparr>mrole = User, text' = t\<rparr>]"

definition appendModel :: "jsstring \<Rightarrow> Message list \<Rightarrow> Message list" where
  "appendModel t prev = prev @ [\<lparr>mrole = Model, text' = t\<rparr>]"

definition role_string :: "Role \<Rightarrow> jsstring" where
  "role_string r = (case r of User \<Rightarrow> user_role | Model \<Rightarrow> model_role)"

text \<open>\<open>m => ({role: m.role as string, parts: [{text: m.text}]})\<close>\<close>

definition toContent :: "Message \<Rightarrow> Content" where
  "toContent m = \<lparr>role = role_string (mrole m), parts = [Text (text' m)]\<rparr>"

definition setInput :: "jsstring \<Rightarrow> ChatBot \<Rightarrow> ChatBot" where
  "setInput v st = st\<lparr>input := v\<rparr>"

text \<open>
  \<open>handleSend\<close> up to its \<open>await\<close>: the guard, the state updates, and the request,
  built by \<open>chatWithStoryAssistant\<close> from the messages of the render the
  handler belongs to (the state before the user's turn is appended). The history array
  made by \<open>messages.map\<close> is the only array of the store, at reference 0. The second
  component is \<open>None\<close> when the handler returns at the guard.
\<close>

definition handleSend_begin :: "ChatBotProps \<Rightarrow> ChatBot \<Rightarrow> ChatBot \<times> (store \<times> Request) option" where
  "handleSend_begin p st =
     (if trim (input st) = [] \<or> isLoading st then (st, None)
      else
        let userMsg = input st;
            history = map toContent (messages st)
        in (st\<lparr>input := [], messages := appendUser userMsg (messages st), isLoading := True\<rparr>,
            chatWithStoryAssistant_request [history] 0 userMsg (media p) (mimeType p)))"

text \<open>
  \<open>handleSend\<close> after the \<open>await\<close>: the call resolved with the reply or was rejected.
\<close>

definition connect_error :: jsstring where
  "connect_error = lit ''Error connecting to the Story Assistant.''"

definition handleSend_end :: "ChatBot \<Rightarrow> error + jsstring \<Rightarrow> ChatBot" where
  "handleSend_end st outcome =
     (let st1 = (case outcome of
                   Inr response \<Rightarrow> st\<lparr>messages := appendModel response (messages st)\<rparr>
                 | Inl e \<Rightarrow> st\<lparr>messages := appendModel connect_error (messages st)\<rparr>)
      in st1\<lparr>isLoading := False\<rparr>)"

section \<open>Bytes as text (services/geminiService.ts)\<close>

text \<open>
  The platform's \<open>btoa\<close> and \<open>atob\<close>. \<open>btoa\<close> throws an InvalidCharacterError when
  a code unit of its argument is above 255, and otherwise writes the code units, taken as
  bytes, in base64: three bytes become four characters of 6 bits each, and the last
  group is filled up with \<open>=\<close>.
\<close>

fun sextets :: "nat list \<Rightarrow> nat list" where
  "sextets (a # b # c # rest) =
     [a div 4, (a mod 4) * 16 + b div 16, (b mod 16) * 4 + c div 64, c mod 64] @ sextets rest"
| "sextets [a, b] = [a div 4, (a mod 4) * 16 + b div 16, (b mod 16) * 4]"
| "sextets [a] = [a div 4, (a mod 4) * 16]"
| "sextets [] = []"

definition b64char :: "nat \<Rightarrow> 16 word" where
  "b64char n =
     (if n < 26 then 0x41 + of_nat n
      else if n < 52 then 0x61 + of_nat (n - 26)
      else if n < 62 then 0x30 + of_nat (n - 52)
      else if n = 62 then 0x2B
      else 0x2F)"

definition pad :: "16 word" where
  "pad = 0x3D"

definition btoa :: "jsstring \<Rightarrow> error + jsstring" where
  "btoa s =
     (if list_all (\<lambda>c. c \<le> 0xFF) s
      then Inr (map b64char (sextets (map unat s)) @ replicate ((3 - length s mod 3) mod 3) pad)
      else Inl InvalidCharacterError)"

text \<open>
  \<open>atob\<close> removes the ASCII whitespace of its argument; if the length is then a
  multiple of 4 it removes one or two \<open>=\<close> at the end; it throws an
  InvalidCharacterError if the length is now 1 modulo 4 or a character is outside the
  alphabet; and it reads the characters as groups of 6 bits, dropping the bits of an
  incomplete last byte.
\<close>

definition isAsciiWhitespace :: "16 word \<Rightarrow> bool" where
  "isAsciiWhitespace c = (c = 0x09 \<or> c = 0x0A \<or> c = 0x0C \<or> c = 0x0D \<or> c = 0x20)"

definition b64val :: "16 word \<Rightarrow> nat option" where
  "b64val c =
     (if 0x41 \<le> c \<and> c \<le> 0x5A then Some (unat c - 0x41)
      else if 0x61 \<le> c \<and> c \<le> 0x7A then Some (unat c - 0x61 + 26)
      else if 0x30 \<le> c \<and> c \<le> 0x39 then Some (unat c - 0x30 + 52)
      else if c = 0x2B then Some 62
      else if c = 0x2F then Some 63
      else None)"

definition strip_padding :: "jsstring \<Rightarrow> jsstring" where
  "strip_padding s =
     (if length s mod 4 = 0 \<and> s \<noteq> [] \<and> last s = pad
      then (if butlast s \<noteq> [] \<and> last (butlast s) = pad then butlast (butlast s) else butlast s)
      else s)"

fun octets :: "nat list \<Rightarrow> nat list" where
  "octets (a # b # c # d # rest) =
     [a * 4 + b div 16, (b mod 16) * 16 + c div 4, (c mod 4) * 64 + d] @ octets rest"
| "octets [a, b, c] = [a * 4 + b div 16, (b mod 16) * 16 + c div 4]"
| "octets [a, b] = [a * 4 + b div 16]"
| "octets rest = []"

definition atob :: "jsstring \<Rightarrow> error + jsstring" where
  "atob data =
     (let s = strip_padding (filter (\<lambda>c. \<not> isAsciiWhitespace c) data)
      in if length s mod 4 = 1 then Inl InvalidCharacterError
         else (case those (map b64val s) of
                 None \<Rightarrow> Inl InvalidCharacterError
               | Some vs \<Rightarrow> Inr (map of_nat (octets vs))))"

text \<open>
  \<open>encode\<close> builds the string of the bytes with \<open>String.fromCharCode\<close> and returns its
  \<open>btoa\<close>; \<open>decode\<close> takes the \<open>atob\<close> of its argument and stores the code units
  into a new \<open>Uint8Array\<close>, which keeps the low 8 bits of each.
\<close>

definition encode :: "byte list \<Rightarrow> error + jsstring" where
  "encode bytes = btoa (map ucast bytes)"

definition decode :: "jsstring \<Rightarrow> error + byte list" where
  "decode base64 =
     (case atob base64 of
        Inl e \<Rightarrow> Inl e
      | Inr binaryString \<Rightarrow> Inr (map ucast binaryString))"

text \<open>
  \<open>narrateText\<close> after the reply of the service: the base64 text of the first inline
  data part, if there is one, is decoded.
\<close>

definition narrateText_result :: "jsstring option \<Rightarrow> error + byte list" where
  "narrateText_result base64Audio =
     (case base64Audio of
        None \<Rightarrow> Inl (Error (lit ''No audio data received''))
      | Some s \<Rightarrow> if s = [] then Inl (Error (lit ''No audio data received'')) else decode s)"

section \<open>Decoding PCM audio (services/geminiService.ts)\<close>

text \<open>
  \<open>decodeAudioData\<close> reads \<open>data.buffer\<close>, so here a \<open>Uint8Array\<close> is what it is
  on the platform: a view of \<open>byteLength\<close> bytes, from \<open>byteOffset\<close> on, of a buffer.
  Its elements are the bytes it views. \<open>new Uint8Array(len)\<close>, once filled, is an array
  that views the whole of a buffer of its own.
\<close>

record Uint8Array =
  buffer' :: "byte list"
  byteOffset :: nat
  byteLength :: nat

definition elements :: "Uint8Array \<Rightarrow> byte list" where
  "elements data = take (byteLength data) (drop (byteOffset data) (buffer' data))"

definition Uint8Array_of :: "byte list \<Rightarrow> Uint8Array" where
  "Uint8Array_of bytes = \<lparr>buffer' = bytes, byteOffset = 0, byteLength = length bytes\<rparr>"

text \<open>
  \<open>new Int16Array(buffer)\<close> throws a RangeError when the byte length of the buffer is
  not a multiple of 2, and otherwise views the whole of it as 16-bit elements in the byte
  order of the platform, little-endian here.
\<close>

fun int16s :: "byte list \<Rightarrow> 16 word list" where
  "int16s (lo # hi # rest) = word_cat hi lo # int16s rest"
| "int16s rest = []"

definition Int16Array :: "byte list \<Rightarrow> error + 16 word list" where
  "Int16Array buffer = (if odd (length buffer) then Inl RangeError else Inr (int16s buffer))"

text \<open>
  The numbers of this function: a quotient of two lengths is a real number, or
  \<open>Infinity\<close> or \<open>NaN\<close> when the divisor is 0; an element of a \<open>Float32Array\<close> is
  a real number or \<open>NaN\<close>. The quotient of a 16-bit integer by 32768 is a binary
  fraction of at most 16 digits: both the division and the store into a
  \<open>Float32Array\<close> are exact.
\<close>

datatype number = Num real | Infinity | NaN

definition divide_lengths :: "nat \<Rightarrow> nat \<Rightarrow> number" where
  "divide_lengths a b =
     (if b = 0 then (if a = 0 then NaN else Infinity) else Num (real a / real b))"

text \<open>
  The platform's \<open>createBuffer(numberOfChannels, length, sampleRate)\<close>. Its
  \<open>length\<close> parameter is an \<open>unsigned long\<close>: the number passed is truncated to an
  integer and taken modulo \<open>2^32\<close>, with \<open>NaN\<close> and the infinities becoming 0. It throws
  a NotSupportedError when an argument is zero or outside its nominal range; the ranges
  depend on the implementation and are fields of the context. The buffer it returns is
  silent.
\<close>

record AudioContext =
  maxNumberOfChannels :: nat
  minSampleRate :: real
  maxSampleRate :: real

record AudioBuffer =
  numberOfChannels :: nat
  length' :: nat
  sampleRate :: real
  channels :: "number list list"

definition to_unsigned_long :: "number \<Rightarrow> nat" where
  "to_unsigned_long x =
     (case x of
        Num r \<Rightarrow> nat ((if 0 \<le> r then \<lfloor>r\<rfloor> else - \<lfloor>- r\<rfloor>) mod 2 ^ 32)
      | Infinity \<Rightarrow> 0
      | NaN \<Rightarrow> 0)"

definition createBuffer :: "AudioContext \<Rightarrow> nat \<Rightarrow> number \<Rightarrow> real \<Rightarrow> error + AudioBuffer" where
  "createBuffer ctx numChannels len rate =
     (let n = to_unsigned_long len
      in if numChannels = 0 \<or> maxNumberOfChannels ctx < numChannels \<or> n = 0
            \<or> rate < minSampleRate ctx \<or> maxSampleRate ctx < rate
         then Inl NotSupportedError
         else Inr \<lparr>numberOfChannels = numChannels, length' = n, sampleRate = rate,
                   channels = replicate numChannels (replicate n (Num 0))\<rparr>)"

text \<open>
  \<open>dataInt16[k] / 32768.0\<close>: reading a typed array past its end gives \<open>undefined\<close>,
  and \<open>undefined / 32768.0\<close> is \<open>NaN\<close>.
\<close>

definition sample :: "16 word list \<Rightarrow> nat \<Rightarrow> number" where
  "sample dataInt16 k =
     (case index dataInt16 k of
        Some w \<Rightarrow> Num (real_of_int (sint w) / 32768)
      | None \<Rightarrow> NaN)"

text \<open>
  The inner loop, \<open>for (let i = 0; i < frameCount; i++)\<close>, from a given \<open>i\<close>. A write
  past the end of a typed array is ignored, as a list update past the end is.
\<close>

function frame_loop :: "16 word list \<Rightarrow> nat \<Rightarrow> nat \<Rightarrow> real \<Rightarrow> nat \<Rightarrow> number list \<Rightarrow> number list" where
  "frame_loop dataInt16 numChannels channel frameCount i channelData =
     (if real i < frameCount
      then frame_loop dataInt16 numChannels channel frameCount (Suc i)
             (channelData[i := sample dataInt16 (i * numChannels + channel)])
      else channelData)"
  by pat_completeness auto
termination
  by (relation "measure (\<lambda>(dataInt16, numChannels, channel, frameCount, i, channelData).
        nat \<lceil>frameCount\<rceil> - i)")
    (auto simp: zless_nat_eq_int_zless less_ceiling_iff intro!: diff_less_mono2)

text \<open>
  The outer loop, \<open>for (let channel = 0; channel < numChannels; channel++)\<close>, from a
  given channel. \<open>getChannelData(channel)\<close> is the array of the channel itself, written
  in place; the buffer was made with \<open>numChannels\<close> channels, so the index is in range.
\<close>

function channel_loop :: "16 word list \<Rightarrow> nat \<Rightarrow> real \<Rightarrow> nat \<Rightarrow> AudioBuffer \<Rightarrow> AudioBuffer" where
  "channel_loop dataInt16 numChannels frameCount channel buffer =
     (if channel < numChannels
      then channel_loop dataInt16 numChannels frameCount (Suc channel)
             (buffer\<lparr>channels := (channels buffer)
                [channel := frame_loop dataInt16 numChannels channel frameCount 0
                              (channels buffer ! channel)]\<rparr>)
      else buffer)"
  by pat_completeness auto
termination
  by (relation "measure (\<lambda>(dataInt16, numChannels, frameCount, channel, buffer).
        numChannels - channel)") auto

text \<open>
  \<open>decodeAudioData\<close>. The 16-bit array is made from \<open>data.buffer\<close>, the whole buffer
  under the array, whatever part of it the array views. The quotient \<open>frameCount\<close> is
  not a real number only when \<open>numChannels\<close> is 0; \<open>createBuffer\<close> has thrown by
  then, and the loop over the channels would have no iteration.
\<close>

definition decodeAudioData :: "Uint8Array \<Rightarrow> AudioContext \<Rightarrow> real \<Rightarrow> nat \<Rightarrow> error + AudioBuffer" where
  "decodeAudioData data ctx rate numChannels =
     (case Int16Array (buffer' data) of
        Inl e \<Rightarrow> Inl e
      | Inr dataInt16 \<Rightarrow>
          (let frameCount = divide_lengths (length dataInt16) numChannels
           in case createBuffer ctx numChannels frameCount rate of
                Inl e \<Rightarrow> Inl e
              | Inr buffer \<Rightarrow>
                  (case frameCount of
                     Num fc \<Rightarrow> Inr (channel_loop dataInt16 numChannels fc 0 buffer)
                   | Infinity \<Rightarrow> Inr buffer
                   | NaN \<Rightarrow> Inr buffer)))"

text \<open>
  The words of the specification: \<open>int16At k\<close> is the k-th 16-bit little-endian
  signed sample of the bytes.
\<close>

definition int16At :: "byte list \<Rightarrow> nat \<Rightarrow> int" where
  "int16At data k = sint (word_cat (data ! (2 * k + 1)) (data ! (2 * k)) :: 16 word)"

text \<open>
  The context the application makes, \<open>new AudioContext({sampleRate: 24000})\<close>, with the
  nominal ranges that every implementation of the platform supports: up to 32 channels,
  and sample rates from 8000 to 96000.
\<close>

definition newAudioContext :: AudioContext where
  "newAudioContext = \<lparr>maxNumberOfChannels = 32, minSampleRate = 8000, maxSampleRate = 96000\<rparr>"

section \<open>JSON values and \<open>JSON.parse\<close>\<close>

text \<open>
  What \<open>JSON.parse\<close> returns. An object is the list of its members in the order of
  their first appearance; a number is kept as the numeral that was written, since
  nothing here computes with it.
\<close>

datatype json =
    JNull
  | JBool bool
  | JNumber jsstring
  | JString jsstring
  | JArray "json list"
  | JObject "(jsstring \<times> json) list"

datatype token =
    TLBracket | TRBracket | TLBrace | TRBrace | TComma | TColon
  | TString jsstring | TNumber jsstring | TTrue | TFalse | TNull

subsection \<open>Tokens\<close>

definition isDigit :: "16 word \<Rightarrow> bool" where
  "isDigit c = (0x30 \<le> c \<and> c \<le> 0x39)"

definition isLower :: "16 word \<Rightarrow> bool" where
  "isLower c = (0x61 \<le> c \<and> c \<le> 0x7A)"

definition isNumberChar :: "16 word \<Rightarrow> bool" where
  "isNumberChar c = (isDigit c \<or> c = 0x2D \<or> c = 0x2B \<or> c = 0x2E \<or> c = 0x65 \<or> c = 0x45)"

definition isJsonSpace :: "16 word \<Rightarrow> bool" where
  "isJsonSpace c = (c = 0x09 \<or> c = 0x0A \<or> c = 0x0D \<or> c = 0x20)"

definition hexval :: "16 word \<Rightarrow> 16 word option" where
  "hexval c =
     (if 0x30 \<le> c \<and> c \<le> 0x39 then Some (c - 0x30)
      else if 0x41 \<le> c \<and> c \<le> 0x46 then Some (c - 0x41 + 10)
      else if 0x61 \<le> c \<and> c \<le> 0x66 then Some (c - 0x61 + 10)
      else None)"

text \<open>
  The grammar of a JSON number: an optional minus, an integer part without a leading
  zero, an optional fraction, an optional exponent.
\<close>

definition digits_then :: "jsstring \<Rightarrow> jsstring option" where
  "digits_then s = (if takeWhile isDigit s = [] then None else Some (dropWhile isDigit s))"

definition valid_exponent :: "jsstring \<Rightarrow> bool" where
  "valid_exponent s =
     (case s of
        [] \<Rightarrow> True
      | c # r \<Rightarrow>
          (c = 0x65 \<or> c = 0x45)
          \<and> (case r of
                [] \<Rightarrow> False
              | d # r' \<Rightarrow> digits_then (if d = 0x2B \<or> d = 0x2D then r' else r) = Some []))"

definition valid_fraction :: "jsstring \<Rightarrow> bool" where
  "valid_fraction s =
     (case s of
        [] \<Rightarrow> True
      | c # r \<Rightarrow>
          if c = 0x2E
          then (case digits_then r of None \<Rightarrow> False | Some r' \<Rightarrow> valid_exponent r')
          else valid_exponent s)"

definition valid_number :: "jsstring \<Rightarrow> bool" where
  "valid_number s =
     (let s1 = (case s of [] \<Rightarrow> [] | c # r \<Rightarrow> if c = 0x2D then r else s)
      in case s1 of
           [] \<Rightarrow> False
         | c # r \<Rightarrow>
             if c = 0x30 then valid_fraction r
             else (case digits_then s1 of None \<Rightarrow> False | Some r' \<Rightarrow> valid_fraction r'))"

text \<open>
  The scanner reads one code unit at a time. A number or a word is read as far as its
  characters go and checked when it ends; in JSON no two values stand next to each other
  without a separator, so this accepts the same texts as the grammar does.
\<close>

datatype lstate =
    LStart
  | LString jsstring
  | LEscape jsstring
  | LUnicode jsstring "16 word list"
  | LNumber jsstring
  | LWord jsstring

definition word_token :: "jsstring \<Rightarrow> token option" where
  "word_token w =
     (if w = lit ''true'' then Some TTrue
      else if w = lit ''false'' then Some TFalse
      else if w = lit ''null'' then Some TNull
      else None)"

definition lex_start :: "token list \<Rightarrow> 16 word \<Rightarrow> (lstate \<times> token list) option" where
  "lex_start ts c =
     (if isJsonSpace c then Some (LStart, ts)
      else if c = 0x22 then Some (LString [], ts)
      else if c = 0x5B then Some (LStart, ts @ [TLBracket])
      else if c = 0x5D then Some (LStart, ts @ [TRBracket])
      else if c = 0x7B then Some (LStart, ts @ [TLBrace])
      else if c = 0x7D then Some (LStart, ts @ [TRBrace])
      else if c = 0x2C then Some (LStart, ts @ [TComma])
      else if c = 0x3A then Some (LStart, ts @ [TColon])
      else if c = 0x2D \<or> isDigit c then Some (LNumber [c], ts)
      else if isLower c then Some (LWord [c], ts)
      else None)"

definition lex_escape :: "jsstring \<Rightarrow> 16 word \<Rightarrow> lstate option" where
  "lex_escape acc c =
     (if c = 0x22 \<or> c = 0x5C \<or> c = 0x2F then Some (LString (acc @ [c]))
      else if c = 0x62 then Some (LString (acc @ [0x08]))
      else if c = 0x66 then Some (LString (acc @ [0x0C]))
      else if c = 0x6E then Some (LString (acc @ [0x0A]))
      else if c = 0x72 then Some (LString (acc @ [0x0D]))
      else if c = 0x74 then Some (LString (acc @ [0x09]))
      else if c = 0x75 then Some (LUnicode acc [])
      else None)"

definition lex_step :: "lstate \<times> token list \<Rightarrow> 16 word \<Rightarrow> (lstate \<times> token list) option" where
  "lex_step st c =
     (case st of
        (LStart, ts) \<Rightarrow> lex_start ts c
      | (LString acc, ts) \<Rightarrow>
          if c = 0x22 then Some (LStart, ts @ [TString acc])
          else if c = 0x5C then Some (LEscape acc, ts)
          else if c < 0x20 then None
          else Some (LString (acc @ [c]), ts)
      | (LEscape acc, ts) \<Rightarrow>
          (case lex_escape acc c of None \<Rightarrow> None | Some l \<Rightarrow> Some (l, ts))
      | (LUnicode acc hs, ts) \<Rightarrow>
          (case hexval c of
             None \<Rightarrow> None
           | Some d \<Rightarrow>
               (case hs of
                  [h1, h2, h3] \<Rightarrow> Some (LString (acc @ [h1 * 4096 + h2 * 256 + h3 * 16 + d]), ts)
                | _ \<Rightarrow> Some (LUnicode acc (hs @ [d]), ts)))
      | (LNumber acc, ts) \<Rightarrow>
          if isNumberChar c then Some (LNumber (acc @ [c]), ts)
          else if valid_number acc then lex_start (ts @ [TNumber acc]) c
          else None
      | (LWord acc, ts) \<Rightarrow>
          if isLower c then Some (LWord (acc @ [c]), ts)
          else (case word_token acc of None \<Rightarrow> None | Some t \<Rightarrow> lex_start (ts @ [t]) c))"

fun lex_from :: "lstate \<times> token list \<Rightarrow> jsstring \<Rightarrow> (lstate \<times> token list) option" where
  "lex_from st [] = Some st"
| "lex_from st (c # cs) = (case lex_step st c of None \<Rightarrow> None | Some st' \<Rightarrow> lex_from st' cs)"

definition lex_end :: "lstate \<times> token list \<Rightarrow> token list option" where
  "lex_end st =
     (case st of
        (LStart, ts) \<Rightarrow> Some ts
      | (LNumber acc, ts) \<Rightarrow> if valid_number acc then Some (ts @ [TNumber acc]) else None
      | (LWord acc, ts) \<Rightarrow> (case word_token acc of None \<Rightarrow> None | Some t \<Rightarrow> Some (ts @ [t]))
      | (LString acc, ts) \<Rightarrow> None
      | (LEscape acc, ts) \<Rightarrow> None
      | (LUnicode acc hs, ts) \<Rightarrow> None)"

definition tokens :: "jsstring \<Rightarrow> token list option" where
  "tokens s = (case lex_from (LStart, []) s of None \<Rightarrow> None | Some st \<Rightarrow> lex_end st)"

subsection \<open>Values\<close>

text \<open>
  The parser keeps a stack of the arrays and objects it is inside of. A member whose key
  is already in the object replaces the value of that key.
\<close>

datatype frame = InArr "json list" | InObj "(jsstring \<times> json) list" jsstring

datatype pstate =
    SValue "frame list"
  | SArrStart "frame list"
  | SArrNext "frame list" "json list"
  | SObjStart "frame list"
  | SObjKey "frame list" "(jsstring \<times> json) list"
  | SObjColon "frame list" "(jsstring \<times> json) list" jsstring
  | SObjNext "frame list" "(jsstring \<times> json) list"
  | SDone json

fun upsert :: "(jsstring \<times> json) list \<Rightarrow> jsstring \<Rightarrow> json \<Rightarrow> (jsstring \<times> json) list" where
  "upsert [] k v = [(k, v)]"
| "upsert ((k', v') # ms) k v = (if k' = k then (k, v) # ms else (k', v') # upsert ms k v)"

fun deliver :: "frame list \<Rightarrow> json \<Rightarrow> pstate" where
  "deliver [] v = SDone v"
| "deliver (InArr es # st) v = SArrNext st (es @ [v])"
| "deliver (InObj ms k # st) v = SObjNext st (upsert ms k v)"

definition begin_value :: "frame list \<Rightarrow> token \<Rightarrow> pstate option" where
  "begin_value st t =
     (case t of
        TString s \<Rightarrow> Some (deliver st (JString s))
      | TNumber n \<Rightarrow> Some (deliver st (JNumber n))
      | TTrue \<Rightarrow> Some (deliver st (JBool True))
      | TFalse \<Rightarrow> Some (deliver st (JBool False))
      | TNull \<Rightarrow> Some (deliver st JNull)
      | TLBracket \<Rightarrow> Some (SArrStart st)
      | TLBrace \<Rightarrow> Some (SObjStart st)
      | _ \<Rightarrow> None)"

definition parse_step :: "pstate \<Rightarrow> token \<Rightarrow> pstate option" where
  "parse_step s t =
     (case s of
        SValue st \<Rightarrow> begin_value st t
      | SArrStart st \<Rightarrow>
          if t = TRBracket then Some (deliver st (JArray [])) else begin_value (InArr [] # st) t
      | SArrNext st es \<Rightarrow>
          if t = TComma then Some (SValue (InArr es # st))
          else if t = TRBracket then Some (deliver st (JArray es))
          else None
      | SObjStart st \<Rightarrow>
          (case t of
             TRBrace \<Rightarrow> Some (deliver st (JObject []))
           | TString k \<Rightarrow> Some (SObjColon st [] k)
           | _ \<Rightarrow> None)
      | SObjKey st ms \<Rightarrow> (case t of TString k \<Rightarrow> Some (SObjColon st ms k) | _ \<Rightarrow> None)
      | SObjColon st ms k \<Rightarrow> if t = TColon then Some (SValue (InObj ms k # st)) else None
      | SObjNext st ms \<Rightarrow>
          if t = TComma then Some (SObjKey st ms)
          else if t = TRBrace then Some (deliver st (JObject ms))
          else None
      | SDone v \<Rightarrow> None)"

fun parse_from :: "pstate \<Rightarrow> token list \<Rightarrow> pstate option" where
  "parse_from s [] = Some s"
| "parse_from s (t # ts) = (case parse_step s t of None \<Rightarrow> None | Some s' \<Rightarrow> parse_from s' ts)"

text \<open>\<open>JSON.parse(text)\<close>: the value, or a SyntaxError.\<close>

definition JSON_parse :: "jsstring \<Rightarrow> error + json" where
  "JSON_parse s =
     (case tokens s of
        None \<Rightarrow> Inl SyntaxError
      | Some ts \<Rightarrow>
          (case parse_from (SValue []) ts of
             Some (SDone v) \<Rightarrow> Inr v
           | _ \<Rightarrow> Inl SyntaxError))"

subsection \<open>The reply to the suggestion request\<close>

text \<open>
  Lines 117 to 121 of the service:
  \<open>try { return JSON.parse(response.text || "[]"); } catch (e) { return []; }\<close>
\<close>

definition generateStorySuggestions_result :: "jsstring option \<Rightarrow> json" where
  "generateStorySuggestions_result response_text =
     (case JSON_parse (or_else response_text (lit ''[]'')) of
        Inr v \<Rightarrow> v
      | Inl e \<Rightarrow> JArray [])"

text \<open>
  What a response schema of the request asks of a value: a string; an array whose
  elements all fit the schema of the items; an object that has every required property
  and whose properties, where present, fit their schemas.
\<close>

fun conforms :: "Schema \<Rightarrow> json \<Rightarrow> bool" where
  "conforms (SString d) v = (case v of JString s \<Rightarrow> True | _ \<Rightarrow> False)"
| "conforms (SArray s) v = (case v of JArray vs \<Rightarrow> list_all (conforms s) vs | _ \<Rightarrow> False)"
| "conforms (SObject props req) v =
     (case v of
        JObject ms \<Rightarrow>
          list_all (\<lambda>k. map_of ms k \<noteq> None) req
          \<and> list_all (\<lambda>(k, s). case map_of ms k of None \<Rightarrow> True | Some x \<Rightarrow> conforms s x) props
      | _ \<Rightarrow> False)"

text \<open>
  A JSON text of an array of suggestions, as a serialiser writes it: each suggestion is
  an object with the members \<open>type\<close> and \<open>text\<close>, and in a string the quotation mark
  and the reverse solidus are escaped with a reverse solidus and the control characters
  as \<open>\u00XX\<close>.
\<close>

definition hexdigit :: "16 word \<Rightarrow> 16 word" where
  "hexdigit d = (if d < 10 then 0x30 + d else 0x61 + (d - 10))"

definition escape :: "16 word \<Rightarrow> jsstring" where
  "escape c =
     (if c = 0x22 then [0x5C, 0x22]
      else if c = 0x5C then [0x5C, 0x5C]
      else if c < 0x20 then [0x5C, 0x75, 0x30, 0x30, hexdigit (c div 16), hexdigit (c mod 16)]
      else [c])"

definition quote :: "jsstring \<Rightarrow> jsstring" where
  "quote s = [0x22] @ concat (map escape s) @ [0x22]"

definition suggestion_text :: "jsstring \<times> jsstring \<Rightarrow> jsstring" where
  \<open>suggestion_text x =
     lit ''{"type":'' @ quote (fst x) @ lit '',"text":'' @ quote (snd x) @ lit ''}''\<close>

definition suggestions_text :: "(jsstring \<times> jsstring) list \<Rightarrow> jsstring" where
  "suggestions_text ss =
     [0x5B]
     @ (case ss of [] \<Rightarrow> [] | x # r \<Rightarrow> suggestion_text x @ concat (map (\<lambda>y. comma # suggestion_text y) r))
     @ [0x5D]"

definition suggestion_json :: "jsstring \<times> jsstring \<Rightarrow> json" where
  "suggestion_json x = JObject [(lit ''type'', JString (fst x)), (lit ''text'', JString (snd x))]"

text \<open>The tokens of the text of one suggestion.\<close>

definition suggestion_tokens :: "jsstring \<times> jsstring \<Rightarrow> token list" where
  "suggestion_tokens x = [TLBrace, TString (lit ''type''), TColon, TString (fst x), TComma,
     TString (lit ''text''), TColon, TString (snd x), TRBrace]"

text \<open>
  The interface \<open>StorySuggestion\<close> of types.ts, read as a property of a value at run
  time: an object whose \<open>type\<close> is one of the three kinds and whose \<open>text\<close> is a
  string.
\<close>

definition is_StorySuggestion :: "json \<Rightarrow> bool" where
  "is_StorySuggestion v =
     (case v of
        JObject ms \<Rightarrow>
          (case map_of ms (lit ''type'') of
             Some (JString k) \<Rightarrow> k = lit ''plot'' \<or> k = lit ''character'' \<or> k = lit ''setting''
           | _ \<Rightarrow> False)
          \<and> (case map_of ms (lit ''text'') of Some (JString t) \<Rightarrow> True | _ \<Rightarrow> False)
      | _ \<Rightarrow> False)"

section \<open>The application (the App component)\<close>

datatype AppLanguage = English | Hindi

definition language_name :: "AppLanguage \<Rightarrow> jsstring" where
  "language_name l = (case l of English \<Rightarrow> lit ''English'' | Hindi \<Rightarrow> lit ''Hindi'')"

text \<open>
  The state of the component. At run time \<open>suggestions\<close> holds whatever
  \<open>generateStorySuggestions\<close> returned: the type \<open>StorySuggestion[]\<close> of the source
  is erased and nothing checks the value against it.
\<close>

record StoryState =
  image' :: "jsstring option"
  mediaMimeType :: "jsstring option"
  paragraph' :: jsstring
  title :: jsstring
  isAnalyzing :: bool
  isReading :: bool
  language :: AppLanguage
  suggestions :: json
  isGeneratingSuggestions :: bool

datatype Tab = Chat | Sparks

text \<open>
  The platform's source nodes. A source that was started is playing until it runs out or
  is stopped; either way the platform then dispatches its \<open>ended\<close> event, which runs
  the \<open>onended\<close> handler the application attached to it.
\<close>

record AudioBufferSourceNode =
  buffer :: AudioBuffer
  playing :: bool
  ended_pending :: bool

record App =
  state :: StoryState
  activeTab :: Tab
  audioContextRef :: "AudioContext option"
  audioSourceRef :: "nat option"
  sources :: "AudioBufferSourceNode list"

definition App_init :: App where
  "App_init =
     \<lparr>state = \<lparr>image' = None, mediaMimeType = None, paragraph' = [], title = [],
                isAnalyzing = False, isReading = False, language = English,
                suggestions = JArray [], isGeneratingSuggestions = False\<rparr>,
      activeTab = Chat, audioContextRef = None, audioSourceRef = None, sources = []\<rparr>"

subsection \<open>\<open>handleAnalyze\<close>\<close>

text \<open>
  \<open>generateStoryFromMedia\<close> as the handler sees it: the call of the service fails, or
  replies with a text that may be missing.
\<close>

definition generateStoryFromMedia_outcome :: "error + jsstring option \<Rightarrow> error + jsstring" where
  "generateStoryFromMedia_outcome reply =
     (case reply of Inl e \<Rightarrow> Inl e | Inr t \<Rightarrow> Inr (generateStoryFromMedia_result t))"

text \<open>
  The handler up to its \<open>await\<close> (\<open>None\<close>: it returned at the guard), and after it. The
  result of the second part is \<open>Inl\<close> for an exception that leaves the handler.
\<close>

definition handleAnalyze_begin :: "App \<Rightarrow> App \<times> Request option" where
  "handleAnalyze_begin app =
     (case bothTruthy (image' (state app)) (mediaMimeType (state app)) of
        None \<Rightarrow> (app, None)
      | Some (img, mime) \<Rightarrow>
          (app\<lparr>state := (state app)\<lparr>isAnalyzing := True, paragraph' := [], suggestions := JArray []\<rparr>\<rparr>,
           Some (generateStoryFromMedia_request img mime (language_name (language (state app))))))"

definition ink_run_dry :: jsstring where
  "ink_run_dry = lit ''The ink has run dry... Please try again.''"

definition handleAnalyze_end :: "App \<Rightarrow> error + jsstring option \<Rightarrow> error + App" where
  "handleAnalyze_end app reply =
     (case generateStoryFromMedia_outcome reply of
        Inr p \<Rightarrow> Inr (app\<lparr>state := (state app)\<lparr>paragraph' := p, isAnalyzing := False\<rparr>\<rparr>)
      | Inl e \<Rightarrow> Inr (app\<lparr>state := (state app)\<lparr>isAnalyzing := False, paragraph' := ink_run_dry\<rparr>\<rparr>))"

text \<open>The control that starts the analysis: \<open>disabled={!state.image || state.isAnalyzing}\<close>.\<close>

definition analyze_disabled :: "App \<Rightarrow> bool" where
  "analyze_disabled app = (\<not> truthy (image' (state app)) \<or> isAnalyzing (state app))"

subsection \<open>\<open>handleGetSuggestions\<close>\<close>

definition handleGetSuggestions_begin :: "App \<Rightarrow> App \<times> Request option" where
  "handleGetSuggestions_begin app =
     (if paragraph' (state app) = [] \<or> isGeneratingSuggestions (state app) then (app, None)
      else (app\<lparr>state := (state app)\<lparr>isGeneratingSuggestions := True\<rparr>\<rparr>,
            Some (generateStorySuggestions_request (image' (state app)) (mediaMimeType (state app))
                    (paragraph' (state app)) (language_name (language (state app))))))"

definition handleGetSuggestions_end :: "App \<Rightarrow> error + jsstring option \<Rightarrow> error + App" where
  "handleGetSuggestions_end app reply =
     (case reply of
        Inr t \<Rightarrow>
          Inr (app\<lparr>state := (state app)\<lparr>suggestions := generateStorySuggestions_result t,
                                         isGeneratingSuggestions := False\<rparr>,
                   activeTab := Sparks\<rparr>)
      | Inl e \<Rightarrow> Inr (app\<lparr>state := (state app)\<lparr>isGeneratingSuggestions := False\<rparr>\<rparr>))"

subsection \<open>\<open>handleReadAloud\<close> and the playback\<close>

text \<open>
  \<open>source.stop()\<close>, and a source running out: a playing source stops playing and its
  \<open>ended\<close> event is due. Stopping a source that no longer plays does nothing.
\<close>

definition stop :: "nat \<Rightarrow> AudioBufferSourceNode list \<Rightarrow> AudioBufferSourceNode list" where
  "stop h srcs =
     (if h < length srcs \<and> playing (srcs ! h)
      then srcs[h := (srcs ! h)\<lparr>playing := False, ended_pending := True\<rparr>]
      else srcs)"

definition run_out :: "nat \<Rightarrow> AudioBufferSourceNode list \<Rightarrow> AudioBufferSourceNode list" where
  "run_out h srcs =
     (if h < length srcs \<and> playing (srcs ! h)
      then srcs[h := (srcs ! h)\<lparr>playing := False, ended_pending := True\<rparr>]
      else srcs)"

text \<open>
  The \<open>ended\<close> event of source \<open>h\<close> is dispatched: its handler,
  \<open>() => setState(prev => ({ ...prev, isReading: false }))\<close>, runs.
\<close>

definition dispatch_ended :: "nat \<Rightarrow> App \<Rightarrow> App" where
  "dispatch_ended h app =
     (if h < length (sources app) \<and> ended_pending (sources app ! h)
      then app\<lparr>sources := (sources app)[h := (sources app ! h)\<lparr>ended_pending := False\<rparr>],
               state := (state app)\<lparr>isReading := False\<rparr>\<rparr>
      else app)"

text \<open>
  Lines 167 to 176: the source recorded in \<open>audioSourceRef\<close> is stopped, then a new
  source is made for the decoded audio, given its \<open>onended\<close> handler, started and
  recorded.
\<close>

definition play :: "AudioBuffer \<Rightarrow> App \<Rightarrow> App" where
  "play audioBuffer app =
     (let srcs = (case audioSourceRef app of None \<Rightarrow> sources app | Some h \<Rightarrow> stop h (sources app));
          source = length srcs
      in app\<lparr>sources := srcs @ [\<lparr>buffer = audioBuffer, playing = True, ended_pending = False\<rparr>],
              audioSourceRef := Some source\<rparr>)"

text \<open>
  The handler up to its first \<open>await\<close>: the guard, the audio context, the flag, and the
  text to narrate. \<open>None\<close>: it returned at the guard. The handler that an event calls
  is the one of the latest render, so the state it reads is the current one.
\<close>

definition handleReadAloud_begin :: "App \<Rightarrow> App \<times> jsstring option" where
  "handleReadAloud_begin app =
     (if paragraph' (state app) = [] \<or> isReading (state app) then (app, None)
      else
        let app1 = (case audioContextRef app of
                      None \<Rightarrow> app\<lparr>audioContextRef := Some newAudioContext\<rparr>
                    | Some ctx \<Rightarrow> app);
            textToRead = (if title (state app) \<noteq> []
                          then title (state app) @ lit ''. '' @ paragraph' (state app)
                          else paragraph' (state app))
        in (app1\<lparr>state := (state app1)\<lparr>isReading := True\<rparr>\<rparr>, Some textToRead))"

text \<open>
  The handler after \<open>narrateText\<close> has settled: the audio is decoded and played, and any
  exception on the way ends in the \<open>catch\<close>. The array that \<open>narrateText\<close> resolves
  with is the one \<open>decode\<close> made with \<open>new Uint8Array(len)\<close>.
\<close>

definition handleReadAloud_end :: "App \<Rightarrow> error + byte list \<Rightarrow> error + App" where
  "handleReadAloud_end app narration =
     (let caught = app\<lparr>state := (state app)\<lparr>isReading := False\<rparr>\<rparr>
      in case narration of
           Inl e \<Rightarrow> Inr caught
         | Inr audioBytes \<Rightarrow>
             (case audioContextRef app of
                None \<Rightarrow> Inr caught
              | Some ctx \<Rightarrow>
                  (case decodeAudioData (Uint8Array_of audioBytes) ctx 24000 1 of
                     Inl e \<Rightarrow> Inr caught
                   | Inr audioBuffer \<Rightarrow> Inr (play audioBuffer app))))"

text \<open>
  What can happen to the application, one event at a time. The number beside the
  application counts the calls of \<open>handleReadAloud\<close> that wait at their \<open>await\<close>. The
  other handlers change the state but leave \<open>isReading\<close> and the audio alone.
\<close>

inductive step :: "App \<times> nat \<Rightarrow> App \<times> nat \<Rightarrow> bool" where
  read_begin: "handleReadAloud_begin app = (app', Some t) \<Longrightarrow> step (app, n) (app', Suc n)"
| read_ignored: "handleReadAloud_begin app = (app', None) \<Longrightarrow> step (app, n) (app', n)"
| read_end: "handleReadAloud_end app narration = Inr app' \<Longrightarrow> step (app, Suc n) (app', n)"
| runs_out: "h < length (sources app) \<Longrightarrow> playing (sources app ! h) \<Longrightarrow>
    step (app, n) (app\<lparr>sources := run_out h (sources app)\<rparr>, n)"
| ended: "h < length (sources app) \<Longrightarrow> ended_pending (sources app ! h) \<Longrightarrow>
    step (app, n) (dispatch_ended h app, n)"
| other: "isReading s = isReading (state app) \<Longrightarrow>
    step (app, n) (app\<lparr>state := s, activeTab := t\<rparr>, n)"

inductive reachable :: "App \<times> nat \<Rightarrow> bool" where
  start: "reachable (App_init, 0)"
| after: "reachable c \<Longrightarrow> step c c' \<Longrightarrow> reachable c'"

text \<open>
  The sources that are playing, and those whose \<open>ended\<close> event is due. At every
  moment of a run one of four situations holds: nothing is going on; a narration is
  awaited; the recorded source is playing; or the \<open>ended\<close> event of a source is due.
  In the last three \<open>isReading\<close> is set.
\<close>

definition playing_set :: "App \<Rightarrow> nat set" where
  "playing_set app = {h. h < length (sources app) \<and> playing (sources app ! h)}"

definition pending_set :: "App \<Rightarrow> nat set" where
  "pending_set app = {h. h < length (sources app) \<and> ended_pending (sources app ! h)}"

definition playback_inv :: "App \<times> nat \<Rightarrow> bool" where
  "playback_inv c =
     (case c of (app, n) \<Rightarrow>
        (n = 0 \<and> playing_set app = {} \<and> pending_set app = {})
        \<or> (isReading (state app) \<and> n = 1 \<and> playing_set app = {} \<and> pending_set app = {})
        \<or> (isReading (state app) \<and> n = 0 \<and> pending_set app = {}
             \<and> (\<exists>h. playing_set app = {h} \<and> audioSourceRef app = Some h))
        \<or> (isReading (state app) \<and> n = 0 \<and> playing_set app = {}
             \<and> (\<exists>h. pending_set app = {h})))"

text \<open>
  A run of the application for the examples below: a paragraph is there; the user asks
  for the narration; the narration arrives, two bytes of audio, and plays.
\<close>

definition story_ready :: App where
  "story_ready = App_init\<lparr>state := (state App_init)\<lparr>paragraph' := lit ''Once''\<rparr>\<rparr>"

definition narration_awaited :: App where
  "narration_awaited =
     story_ready\<lparr>audioContextRef := Some newAudioContext,
                 state := (state story_ready)\<lparr>isReading := True\<rparr>\<rparr>"

definition narration_playing :: App where
  "narration_playing =
     narration_awaited
       \<lparr>sources := [\<lparr>buffer = \<lparr>numberOfChannels = 1, length' = 1, sampleRate = 24000,
                                 channels = [[Num (1 / 2)]]\<rparr>,
                      playing = True, ended_pending = False\<rparr>],
        audioSourceRef := Some 0\<rparr>"

section \<open>Properties\<close>

subsection \<open>Conversation state\<close>

text \<open>
  C8. The conversation starts with exactly one seeded turn of the model, the fixed
  greeting. Appending the user's turn a, the model's turn b and the user's turn c gives
  the transcript seed, a, b, c in this order; so does the handler: sending a (not blank),
  receiving the reply b, and sending c (not blank).
\<close>

theorem conversation_order:
  "messages ChatBot_init = [seed] \<and> mrole seed = Model \<and> text' seed = greeting
   \<and> appendUser c (appendModel b (appendUser a (messages ChatBot_init)))
       = [seed, \<lparr>mrole = User, text' = a\<rparr>, \<lparr>mrole = Model, text' = b\<rparr>, \<lparr>mrole = User, text' = c\<rparr>]
   \<and> (trim a \<noteq> [] \<and> trim c \<noteq> [] \<longrightarrow>
        messages (fst (handleSend_begin p (setInput c
          (handleSend_end (fst (handleSend_begin p (setInput a ChatBot_init))) (Inr b)))))
        = [seed, \<lparr>mrole = User, text' = a\<rparr>, \<lparr>mrole = Model, text' = b\<rparr>, \<lparr>mrole = User, text' = c\<rparr>])"
  by (simp add: ChatBot_init_def seed_def appendUser_def appendModel_def handleSend_begin_def
      handleSend_end_def setInput_def Let_def)

theorem conversation_order_witness:
  "trim (lit ''a'') \<noteq> [] \<and> trim (lit ''c'') \<noteq> []
   \<and> messages (fst (handleSend_begin \<lparr>media = None, mimeType = None, storyContext = []\<rparr>
        (setInput (lit ''c'') (handleSend_end
          (fst (handleSend_begin \<lparr>media = None, mimeType = None, storyContext = []\<rparr>
             (setInput (lit ''a'') ChatBot_init))) (Inr (lit ''b''))))))
     = [seed, \<lparr>mrole = User, text' = lit ''a''\<rparr>, \<lparr>mrole = Model, text' = lit ''b''\<rparr>,
        \<lparr>mrole = User, text' = lit ''c''\<rparr>]"
proof -
  have a: "trim (lit ''a'') \<noteq> [] \<and> trim (lit ''c'') \<noteq> []"
    by (simp add: trim_def lit_def isWhiteSpace_def)
  from conversation_order [of "lit ''c''" "lit ''b''" "lit ''a''"
      "\<lparr>media = None, mimeType = None, storyContext = []\<rparr>"] a
  show ?thesis by blast
qed

subsection \<open>The conversational request\<close>

lemma chat_contents_valid:
  assumes "history < length h"
  shows "chat_contents h history message base64Data mime
     = Some ((h @ [h ! history @ [\<lparr>role = user_role, parts =
          (case bothTruthy base64Data mime of
             Some (b, m) \<Rightarrow> [mediaPart b m, Text message]
           | None \<Rightarrow> [Text message])\<rparr>]]), length h)"
  using assms
  by (simp add: chat_contents_def spread_def push_def nth_append split: option.splits)

text \<open>
  C7. For a history array in the store and a new message, the contents of the request of
  \<open>chatWithStoryAssistant\<close> are the turns of the history, in order and as they are,
  followed by the new turn of the user; the media part, when both media and mime type are
  present, is in the new turn only. The arrays already in the store, the history among
  them, are left as they were: the builder writes to its own copy. In \<open>handleSend\<close>
  the history is the transcript, each message mapped to its role and one text part.
\<close>

theorem chat_request_transcript:
  "(history < length h \<longrightarrow>
      (\<exists>h' req. chatWithStoryAssistant_request h history message base64Data mime = Some (h', req)
         \<and> contents req = Turns (h ! history @ [\<lparr>role = user_role, parts =
              (case bothTruthy base64Data mime of
                 Some (b, m) \<Rightarrow> [mediaPart b m, Text message]
               | None \<Rightarrow> [Text message])\<rparr>])
         \<and> take (length h) h' = h
         \<and> h' ! history = h ! history))
   \<and> (trim (input st) \<noteq> [] \<and> \<not> isLoading st \<longrightarrow>
      (\<exists>h' req. snd (handleSend_begin p st) = Some (h', req)
         \<and> contents req = Turns (map (\<lambda>m. \<lparr>role = role_string (mrole m), parts = [Text (text' m)]\<rparr>) (messages st)
              @ [\<lparr>role = user_role, parts =
                   (case bothTruthy (media p) (mimeType p) of
                      Some (b, m) \<Rightarrow> [mediaPart b m, Text (input st)]
                    | None \<Rightarrow> [Text (input st)])\<rparr>])))"
proof (intro conjI impI)
  assume v: "history < length h"
  show "\<exists>h' req. chatWithStoryAssistant_request h history message base64Data mime = Some (h', req)
         \<and> contents req = Turns (h ! history @ [\<lparr>role = user_role, parts =
              (case bothTruthy base64Data mime of
                 Some (b, m) \<Rightarrow> [mediaPart b m, Text message]
               | None \<Rightarrow> [Text message])\<rparr>])
         \<and> take (length h) h' = h
         \<and> h' ! history = h ! history"
    using v by (simp add: chatWithStoryAssistant_request_def chat_contents_valid nth_append)
next
  assume g: "trim (input st) \<noteq> [] \<and> \<not> isLoading st"
  show "\<exists>h' req. snd (handleSend_begin p st) = Some (h', req)
         \<and> contents req = Turns (map (\<lambda>m. \<lparr>role = role_string (mrole m), parts = [Text (text' m)]\<rparr>) (messages st)
              @ [\<lparr>role = user_role, parts =
                   (case bothTruthy (media p) (mimeType p) of
                      Some (b, m) \<Rightarrow> [mediaPart b m, Text (input st)]
                    | None \<Rightarrow> [Text (input st)])\<rparr>])"
    using g
    by (simp add: handleSend_begin_def Let_def chatWithStoryAssistant_request_def
        chat_contents_valid toContent_def)
qed

theorem chat_request_transcript_witness:
  "(0::nat) < length [[toContent seed]]
   \<and> trim (input (setInput (lit ''hi'') ChatBot_init)) \<noteq> []
   \<and> \<not> isLoading (setInput (lit ''hi'') ChatBot_init)
   \<and> (\<exists>h' req. chatWithStoryAssistant_request [[toContent seed]] 0 (lit ''hi'')
          (Some (lit ''data:image/png;base64,AAAA'')) (Some (lit ''image/png'')) = Some (h', req)
        \<and> contents req = Turns [toContent seed,
             \<lparr>role = user_role,
              parts = [InlineData (lit ''image/png'') (Some (lit ''AAAA'')), Text (lit ''hi'')]\<rparr>]
        \<and> h' ! 0 = [toContent seed])
   \<and> (\<exists>h' req. snd (handleSend_begin
          \<lparr>media = Some (lit ''data:image/png;base64,AAAA''), mimeType = Some (lit ''image/png''),
           storyContext = []\<rparr> (setInput (lit ''hi'') ChatBot_init)) = Some (h', req)
        \<and> contents req = Turns [toContent seed,
             \<lparr>role = user_role,
              parts = [InlineData (lit ''image/png'') (Some (lit ''AAAA'')), Text (lit ''hi'')]\<rparr>])"
proof -
  have v: "(0::nat) < length [[toContent seed]]"
    by simp
  have g: "trim (input (setInput (lit ''hi'') ChatBot_init)) \<noteq> []
      \<and> \<not> isLoading (setInput (lit ''hi'') ChatBot_init)"
    by (simp add: setInput_def ChatBot_init_def trim_def lit_def isWhiteSpace_def)
  have m: "mediaPart (lit ''data:image/png;base64,AAAA'') (lit ''image/png'')
      = InlineData (lit ''image/png'') (Some (lit ''AAAA''))"
    by (simp add: mediaPart_def split_def index_def comma_def lit_def)
  have b: "bothTruthy (Some (lit ''data:image/png;base64,AAAA'')) (Some (lit ''image/png''))
      = Some (lit ''data:image/png;base64,AAAA'', lit ''image/png'')"
    by (simp add: bothTruthy_def lit_def)
  have i: "input (setInput (lit ''hi'') ChatBot_init) = lit ''hi''"
      "messages (setInput (lit ''hi'') ChatBot_init) = [seed]"
    by (simp_all add: setInput_def ChatBot_init_def)
  from chat_request_transcript [of 0 "[[toContent seed]]" "lit ''hi''"
      "Some (lit ''data:image/png;base64,AAAA'')" "Some (lit ''image/png'')"
      "setInput (lit ''hi'') ChatBot_init"
      "\<lparr>media = Some (lit ''data:image/png;base64,AAAA''), mimeType = Some (lit ''image/png''),
        storyContext = []\<rparr>"]
  show ?thesis
    using v g by (auto simp add: m b i toContent_def)
qed

subsection \<open>The data of a media part\<close>

lemma split_from_eq:
  "split_from sep acc s =
     (rev acc @ takeWhile (\<lambda>c. c \<noteq> sep) s)
       # (if sep \<in> set s then split_from sep [] (tl (dropWhile (\<lambda>c. c \<noteq> sep) s)) else [])"
  by (induction s arbitrary: acc) auto

lemma split_from_hd: "\<exists>rest. split_from sep [] s = takeWhile (\<lambda>c. c \<noteq> sep) s # rest"
  using split_from_eq [of sep "[]" s] by simp

lemma split_second:
  "index (split s comma) 1 =
     (if comma \<in> set s then Some (takeWhile (\<lambda>c. c \<noteq> comma) (after_first_comma s)) else None)"
proof (cases "comma \<in> set s")
  case True
  obtain rest where r: "split_from comma [] (after_first_comma s)
      = takeWhile (\<lambda>c. c \<noteq> comma) (after_first_comma s) # rest"
    using split_from_hd by blast
  have "split s comma = takeWhile (\<lambda>c. c \<noteq> comma) s
      # takeWhile (\<lambda>c. c \<noteq> comma) (after_first_comma s) # rest"
    using True r split_from_eq [of comma "[]" s] by (simp add: split_def after_first_comma_def)
  then show ?thesis using True by (simp add: index_def)
next
  case False
  then have "split s comma = [takeWhile (\<lambda>c. c \<noteq> comma) s]"
    using split_from_eq [of comma "[]" s] by (simp add: split_def)
  then show ?thesis using False by (simp add: index_def)
qed

lemma takeWhile_all: "x \<notin> set xs \<Longrightarrow> takeWhile (\<lambda>c. c \<noteq> x) xs = xs"
  by (induction xs) auto

text \<open>
  C10, as the code has it. The data of a media part is the second segment of the media
  string cut at its commas: what lies between the first comma and the second one (or the
  end of the string), and undefined when the string has no comma. When the string has
  exactly one comma this is the substring after the comma. The three builders embed this
  value: \<open>generateStoryFromMedia\<close> always, the other two when media and mime type are
  both present.
\<close>

theorem media_data_segment:
  "index (split b comma) 1 =
     (if comma \<in> set b then Some (takeWhile (\<lambda>c. c \<noteq> comma) (after_first_comma b)) else None)
   \<and> (comma \<in> set b \<and> comma \<notin> set (after_first_comma b) \<longrightarrow>
        index (split b comma) 1 = Some (after_first_comma b))
   \<and> contents (generateStoryFromMedia_request b m lang)
        = Parts [InlineData m (index (split b comma) 1),
                 Text (story_prompt (if startsWith m (lit ''video'') then lit ''video'' else lit ''image'') lang)]
   \<and> (bothTruthy base64Data mime = Some (b, m) \<longrightarrow>
        contents (generateStorySuggestions_request base64Data mime story lang)
          = Parts [InlineData m (index (split b comma) 1),
                   Text (suggestions_prompt mime story lang)])
   \<and> (bothTruthy base64Data mime = Some (b, m) \<and> history < length h \<longrightarrow>
        (\<exists>h' req. chatWithStoryAssistant_request h history message base64Data mime = Some (h', req)
           \<and> contents req = Turns (h ! history
                @ [\<lparr>role = user_role, parts = [InlineData m (index (split b comma) 1), Text message]\<rparr>])))"
  by (simp add: split_second takeWhile_all generateStoryFromMedia_request_def Let_def mediaPart_def
      generateStorySuggestions_request_def chatWithStoryAssistant_request_def chat_contents_def
      spread_def push_def nth_append del: One_nat_def)

theorem media_data_segment_witness:
  "comma \<in> set (lit ''data:image/png;base64,AAAA'')
   \<and> comma \<notin> set (after_first_comma (lit ''data:image/png;base64,AAAA''))
   \<and> bothTruthy (Some (lit ''data:image/png;base64,AAAA'')) (Some (lit ''image/png''))
       = Some (lit ''data:image/png;base64,AAAA'', lit ''image/png'')
   \<and> (0::nat) < length [[] :: Content list]
   \<and> index (split (lit ''data:image/png;base64,AAAA'') comma) 1 = Some (lit ''AAAA'')
   \<and> contents (generateStorySuggestions_request (Some (lit ''data:image/png;base64,AAAA''))
         (Some (lit ''image/png'')) [] (lit ''English''))
       = Parts [InlineData (lit ''image/png'') (Some (lit ''AAAA'')),
                Text (suggestions_prompt (Some (lit ''image/png'')) [] (lit ''English''))]
   \<and> (\<exists>h' req. chatWithStoryAssistant_request [[]] 0 (lit ''hi'')
          (Some (lit ''data:image/png;base64,AAAA'')) (Some (lit ''image/png'')) = Some (h', req)
        \<and> contents req = Turns [\<lparr>role = user_role,
             parts = [InlineData (lit ''image/png'') (Some (lit ''AAAA'')), Text (lit ''hi'')]\<rparr>])"
proof -
  have c: "comma \<in> set (lit ''data:image/png;base64,AAAA'')
      \<and> comma \<notin> set (after_first_comma (lit ''data:image/png;base64,AAAA''))"
    by (simp add: after_first_comma_def comma_def lit_def)
  have a: "after_first_comma (lit ''data:image/png;base64,AAAA'') = lit ''AAAA''"
    by (simp add: after_first_comma_def comma_def lit_def)
  have b: "bothTruthy (Some (lit ''data:image/png;base64,AAAA'')) (Some (lit ''image/png''))
      = Some (lit ''data:image/png;base64,AAAA'', lit ''image/png'')"
    by (simp add: bothTruthy_def lit_def)
  from media_data_segment [where b = "lit ''data:image/png;base64,AAAA''"
      and base64Data = "Some (lit ''data:image/png;base64,AAAA'')"
      and mime = "Some (lit ''image/png'')" and m = "lit ''image/png''" and history = 0
      and h = "[[]]" and message = "lit ''hi''" and story = "[]" and lang = "lit ''English''"]
  show ?thesis
    using c b by (auto simp add: a simp del: One_nat_def)
qed

text \<open>
  The claim as the specification words it fails on a media string with two commas: the
  data is the segment between them, not all that follows the first one.
\<close>

theorem media_data_counterexample:
  "InlineData (lit ''image/png'') (Some (after_first_comma (lit ''data:image/png;base64,AAAA,BBBB'')))
     \<noteq> mediaPart (lit ''data:image/png;base64,AAAA,BBBB'') (lit ''image/png'')
   \<and> after_first_comma (lit ''data:image/png;base64,AAAA,BBBB'') = lit ''AAAA,BBBB''
   \<and> mediaPart (lit ''data:image/png;base64,AAAA,BBBB'') (lit ''image/png'')
       = InlineData (lit ''image/png'') (Some (lit ''AAAA''))"
  by (simp add: mediaPart_def split_def index_def comma_def lit_def after_first_comma_def)

subsection \<open>Decoding PCM audio\<close>

declare frame_loop.simps [simp del] channel_loop.simps [simp del]

lemma length_int16s: "length (int16s bs) = length bs div 2"
  by (induction bs rule: int16s.induct) auto

lemma int16s_nth:
  "k < length bs div 2 \<Longrightarrow> int16s bs ! k = word_cat (bs ! (2 * k + 1)) (bs ! (2 * k))"
proof (induction bs arbitrary: k rule: int16s.induct)
  case (1 lo hi rest)
  then show ?case by (cases k) auto
qed auto

lemma length_frame_loop: "length (frame_loop d C c fc i cd) = length cd"
proof (induction d C c fc i cd rule: frame_loop.induct)
  case (1 d C c fc i cd)
  then show ?case by (subst frame_loop.simps) simp
qed

lemma frame_loop_nth:
  "j < length cd \<Longrightarrow>
     frame_loop d C c fc i cd ! j = (if i \<le> j \<and> real j < fc then sample d (j * C + c) else cd ! j)"
proof (induction d C c fc i cd rule: frame_loop.induct)
  case (1 d C c fc i cd)
  show ?case
  proof (cases "real i < fc")
    case True
    then have "frame_loop d C c fc i cd ! j
        = frame_loop d C c fc (Suc i) (cd[i := sample d (i * C + c)]) ! j"
      by (subst frame_loop.simps) simp
    also have "\<dots> = (if Suc i \<le> j \<and> real j < fc then sample d (j * C + c)
        else cd[i := sample d (i * C + c)] ! j)"
      using "1.IH" [OF True] "1.prems" by simp
    also have "\<dots> = (if i \<le> j \<and> real j < fc then sample d (j * C + c) else cd ! j)"
      using True "1.prems" by (cases "i = j") auto
    finally show ?thesis .
  next
    case False
    then have "frame_loop d C c fc i cd = cd"
      by (subst frame_loop.simps) simp
    moreover have "\<not> (i \<le> j \<and> real j < fc)"
    proof
      assume a: "i \<le> j \<and> real j < fc"
      then have "real i \<le> real j" by simp
      with a False show False by linarith
    qed
    ultimately show ?thesis by auto
  qed
qed

lemma channel_loop_fields:
  "numberOfChannels (channel_loop d C fc c b) = numberOfChannels b
   \<and> length' (channel_loop d C fc c b) = length' b
   \<and> sampleRate (channel_loop d C fc c b) = sampleRate b
   \<and> length (channels (channel_loop d C fc c b)) = length (channels b)"
proof (induction d C fc c b rule: channel_loop.induct)
  case (1 d C fc c b)
  then show ?case by (subst (1 2 3 4) channel_loop.simps) simp
qed

lemma channel_loop_nth:
  "k < length (channels b) \<Longrightarrow>
     channels (channel_loop d C fc c b) ! k
       = (if c \<le> k \<and> k < C then frame_loop d C k fc 0 (channels b ! k) else channels b ! k)"
proof (induction d C fc c b rule: channel_loop.induct)
  case (1 d C fc c b)
  show ?case
  proof (cases "c < C")
    case True
    let ?b = "b\<lparr>channels := (channels b)[c := frame_loop d C c fc 0 (channels b ! c)]\<rparr>"
    have "channels (channel_loop d C fc c b) ! k = channels (channel_loop d C fc (Suc c) ?b) ! k"
      using True by (subst channel_loop.simps) simp
    also have "\<dots> = (if Suc c \<le> k \<and> k < C then frame_loop d C k fc 0 (channels ?b ! k)
        else channels ?b ! k)"
      using "1.IH" [OF True] "1.prems" by simp
    also have "\<dots> = (if c \<le> k \<and> k < C then frame_loop d C k fc 0 (channels b ! k) else channels b ! k)"
      using True "1.prems" by (cases "c = k") auto
    finally show ?thesis .
  next
    case False
    then have "channel_loop d C fc c b = b"
      by (subst channel_loop.simps) simp
    then show ?thesis using False by auto
  qed
qed

lemma to_unsigned_long_quotient:
  "0 < C \<Longrightarrow> to_unsigned_long (divide_lengths N C) = (N div C) mod 2 ^ 32"
proof -
  assume C: "0 < C"
  have "\<lfloor>real N / real C\<rfloor> = int (N div C)"
    by (simp add: floor_divide_of_nat_eq)
  moreover have "nat (int (N div C) mod 2 ^ 32) = (N div C) mod 2 ^ 32"
    by (simp add: nat_mod_distrib)
  ultimately show ?thesis
    using C by (simp add: to_unsigned_long_def divide_lengths_def)
qed

lemma frame_in_range:
  assumes "0 < C" "i < N div C" "c < C"
  shows "i * C + c < N \<and> real i < real N / real C"
proof -
  have "Suc i * C \<le> (N div C) * C" using assms(2) by (simp add: Suc_leI mult_le_mono1 del: mult_Suc)
  also have "\<dots> \<le> N" by simp
  finally have 1: "i * C + C \<le> N" by simp
  then have "i * C + c < N" using assms(3) by simp
  moreover have "real (i * C) < real N"
    using 1 assms(1) by (metis add_lessD1 calculation of_nat_less_iff)
  then have "real i < real N / real C"
    using assms(1) by (simp add: pos_less_divide_eq)
  ultimately show ?thesis by simp
qed

lemma decodeAudioData_even:
  assumes e: "even (length (buffer' data))"
    and C: "0 < C" "C \<le> maxNumberOfChannels ctx"
    and r: "minSampleRate ctx \<le> rate" "rate \<le> maxSampleRate ctx"
    and N: "C \<le> length (buffer' data) div 2" "(length (buffer' data) div 2) div C < 2 ^ 32"
  shows "decodeAudioData data ctx rate C
     = Inr \<lparr>numberOfChannels = C, length' = (length (buffer' data) div 2) div C, sampleRate = rate,
            channels = map (\<lambda>c. map (\<lambda>i. Num (real_of_int (int16At (buffer' data) (i * C + c)) / 32768))
                                  [0 ..< (length (buffer' data) div 2) div C]) [0 ..< C]\<rparr>"
proof -
  let ?N = "length (buffer' data) div 2"
  let ?F = "?N div C"
  let ?b0 = "\<lparr>numberOfChannels = C, length' = ?F, sampleRate = rate,
     channels = replicate C (replicate ?F (Num 0))\<rparr>"
  let ?buf = "channel_loop (int16s (buffer' data)) C (real ?N / real C) 0 ?b0"
  let ?row = "\<lambda>c. map (\<lambda>i. Num (real_of_int (int16At (buffer' data) (i * C + c)) / 32768)) [0 ..< ?F]"
  have F: "0 < ?F" using C N by (simp add: div_greater_zero_iff)
  have u: "to_unsigned_long (divide_lengths ?N C) = ?F"
    using to_unsigned_long_quotient [OF C(1), of ?N] N(2) by simp
  have dl: "divide_lengths ?N C = Num (real ?N / real C)"
    using C(1) by (simp add: divide_lengths_def)
  have cb: "createBuffer ctx C (Num (real ?N / real C)) rate = Inr ?b0"
    using C r F u by (simp add: createBuffer_def dl Let_def)
  have d: "decodeAudioData data ctx rate C = Inr ?buf"
    using e by (simp add: decodeAudioData_def Int16Array_def length_int16s dl cb Let_def)
  have ch: "channels ?buf ! c = ?row c" if c: "c < C" for c
  proof (rule nth_equalityI)
    show "length (channels ?buf ! c) = length (?row c)"
      using c by (simp add: channel_loop_nth length_frame_loop)
  next
    fix i assume "i < length (channels ?buf ! c)"
    then have i: "i < ?F" using c by (simp add: channel_loop_nth length_frame_loop)
    have k: "i * C + c < ?N \<and> real i < real ?N / real C"
      using frame_in_range [OF C(1) i c] .
    have "channels ?buf ! c ! i = sample (int16s (buffer' data)) (i * C + c)"
      using c i k by (simp add: channel_loop_nth frame_loop_nth)
    also have "\<dots> = Num (real_of_int (int16At (buffer' data) (i * C + c)) / 32768)"
      using k by (simp add: sample_def index_def length_int16s int16s_nth int16At_def)
    finally show "channels ?buf ! c ! i = ?row c ! i"
      using i by simp
  qed
  have "channels ?buf = map ?row [0 ..< C]"
    by (rule nth_equalityI) (simp_all add: channel_loop_fields ch)
  then have "?buf = \<lparr>numberOfChannels = C, length' = ?F, sampleRate = rate,
      channels = map ?row [0 ..< C]\<rparr>"
    by (intro AudioBuffer.equality) (simp_all add: channel_loop_fields)
  with d show ?thesis by simp
qed

lemma decodeAudioData_odd:
  "odd (length (buffer' data)) \<Longrightarrow> decodeAudioData data ctx rate C = Inl RangeError"
  by (simp add: decodeAudioData_def Int16Array_def)

lemma decodeAudioData_no_frame:
  assumes "even (length (buffer' data))"
    and "((length (buffer' data) div 2) div C) mod 2 ^ 32 = 0"
  shows "decodeAudioData data ctx rate C = Inl NotSupportedError"
proof (cases "C = 0")
  case True
  then show ?thesis
    using assms(1)
    by (simp add: decodeAudioData_def Int16Array_def createBuffer_def Let_def)
next
  case False
  then have "to_unsigned_long (divide_lengths (length (buffer' data) div 2) C) = 0"
    using to_unsigned_long_quotient [of C "length (buffer' data) div 2"] assms(2) by simp
  then show ?thesis
    using assms(1)
    by (simp add: decodeAudioData_def Int16Array_def length_int16s createBuffer_def Let_def)
qed

lemma elements_whole:
  "byteOffset data = 0 \<Longrightarrow> byteLength data = length (buffer' data) \<Longrightarrow> elements data = buffer' data"
  by (simp add: elements_def)

text \<open>
  C2, as the code has it. Let the array view the whole of its buffer, as the arrays made
  by \<open>decode\<close> do, and hold N 16-bit samples (an even number of bytes). When N div C is
  0, as for the empty array, \<open>createBuffer\<close> throws a NotSupportedError. For a channel
  count C from 1 up to the platform's limit, a sample rate the platform accepts and at
  least one complete frame, fewer than \<open>2^32\<close> of them, \<open>decodeAudioData\<close> returns a
  buffer of C channels and exactly N div C frames, where the sample of channel c and
  frame i is \<open>int16At (i * C + c) / 32768\<close>: the channels come out in the order of the
  interleave.
\<close>

theorem decodeAudioData_deinterleave:
  assumes "byteOffset data = 0" and "byteLength data = length (buffer' data)"
    and "even (byteLength data)"
  shows "((byteLength data div 2) div C = 0 \<longrightarrow>
            decodeAudioData data ctx rate C = Inl NotSupportedError)
     \<and> (0 < C \<and> C \<le> maxNumberOfChannels ctx
          \<and> minSampleRate ctx \<le> rate \<and> rate \<le> maxSampleRate ctx
          \<and> C \<le> byteLength data div 2 \<and> (byteLength data div 2) div C < 2 ^ 32 \<longrightarrow>
          (\<exists>buf. decodeAudioData data ctx rate C = Inr buf
             \<and> numberOfChannels buf = C \<and> sampleRate buf = rate
             \<and> length' buf = (byteLength data div 2) div C
             \<and> length (channels buf) = C
             \<and> (\<forall>c < C. length (channels buf ! c) = (byteLength data div 2) div C
                  \<and> (\<forall>i < (byteLength data div 2) div C.
                        channels buf ! c ! i
                          = Num (real_of_int (int16At (elements data) (i * C + c)) / 32768)))))"
proof (intro conjI impI)
  assume "(byteLength data div 2) div C = 0"
  then show "decodeAudioData data ctx rate C = Inl NotSupportedError"
    using assms by (intro decodeAudioData_no_frame) simp_all
next
  assume h: "0 < C \<and> C \<le> maxNumberOfChannels ctx
      \<and> minSampleRate ctx \<le> rate \<and> rate \<le> maxSampleRate ctx
      \<and> C \<le> byteLength data div 2 \<and> (byteLength data div 2) div C < 2 ^ 32"
  have "decodeAudioData data ctx rate C
      = Inr \<lparr>numberOfChannels = C, length' = (length (buffer' data) div 2) div C, sampleRate = rate,
            channels = map (\<lambda>c. map (\<lambda>i. Num (real_of_int (int16At (buffer' data) (i * C + c)) / 32768))
                                  [0 ..< (length (buffer' data) div 2) div C]) [0 ..< C]\<rparr>"
    using assms h by (intro decodeAudioData_even) simp_all
  then show "\<exists>buf. decodeAudioData data ctx rate C = Inr buf
      \<and> numberOfChannels buf = C \<and> sampleRate buf = rate
      \<and> length' buf = (byteLength data div 2) div C
      \<and> length (channels buf) = C
      \<and> (\<forall>c < C. length (channels buf ! c) = (byteLength data div 2) div C
           \<and> (\<forall>i < (byteLength data div 2) div C.
                 channels buf ! c ! i
                   = Num (real_of_int (int16At (elements data) (i * C + c)) / 32768)))"
    using assms by (simp add: elements_whole)
qed

theorem decodeAudioData_deinterleave_witness:
  "byteOffset (Uint8Array_of [0x00, 0x40, 0x00, 0xC0, 0xFF, 0x7F, 0x00, 0x80]) = 0
   \<and> byteLength (Uint8Array_of [0x00, 0x40, 0x00, 0xC0, 0xFF, 0x7F, 0x00, 0x80])
       = length (buffer' (Uint8Array_of [0x00, 0x40, 0x00, 0xC0, 0xFF, 0x7F, 0x00, 0x80]))
   \<and> even (byteLength (Uint8Array_of [0x00, 0x40, 0x00, 0xC0, 0xFF, 0x7F, 0x00, 0x80]))
   \<and> (0::nat) < 2 \<and> 2 \<le> maxNumberOfChannels newAudioContext
   \<and> minSampleRate newAudioContext \<le> 24000 \<and> 24000 \<le> maxSampleRate newAudioContext
   \<and> 2 \<le> byteLength (Uint8Array_of [0x00, 0x40, 0x00, 0xC0, 0xFF, 0x7F, 0x00, 0x80]) div 2
   \<and> (\<exists>buf. decodeAudioData (Uint8Array_of [0x00, 0x40, 0x00, 0xC0, 0xFF, 0x7F, 0x00, 0x80])
                 newAudioContext 24000 2 = Inr buf
        \<and> length' buf = 2
        \<and> channels buf ! 0 ! 0 = Num (1 / 2) \<and> channels buf ! 0 ! 1 = Num (32767 / 32768)
        \<and> channels buf ! 1 ! 0 = Num (- 1 / 2) \<and> channels buf ! 1 ! 1 = Num (- 1))
   \<and> (byteLength (Uint8Array_of []) div 2) div 1 = 0
   \<and> decodeAudioData (Uint8Array_of []) newAudioContext 24000 1 = Inl NotSupportedError"
proof -
  let ?d = "[0x00, 0x40, 0x00, 0xC0, 0xFF, 0x7F, 0x00, 0x80 :: byte]"
  let ?a = "Uint8Array_of ?d"
  have w: "byteOffset ?a = 0" "byteLength ?a = length (buffer' ?a)" "even (byteLength ?a)"
    by (simp_all add: Uint8Array_of_def)
  have h: "0 < (2::nat) \<and> 2 \<le> maxNumberOfChannels newAudioContext
      \<and> minSampleRate newAudioContext \<le> 24000 \<and> 24000 \<le> maxSampleRate newAudioContext
      \<and> 2 \<le> byteLength ?a div 2 \<and> (byteLength ?a div 2) div 2 < 2 ^ 32"
    by (simp add: newAudioContext_def Uint8Array_of_def)
  have e: "elements ?a = ?d"
    by (simp add: elements_def Uint8Array_of_def)
  have s: "int16At ?d 0 = 16384" "int16At ?d 1 = - 16384" "int16At ?d 2 = 32767"
      "int16At ?d 3 = - 32768"
    by (simp_all add: int16At_def word_cat_eq)
  have l: "(byteLength ?a div 2) div 2 = 2"
    by (simp add: Uint8Array_of_def)
  from decodeAudioData_deinterleave [OF w, of 2 newAudioContext 24000] h
  obtain buf where b: "decodeAudioData ?a newAudioContext 24000 2 = Inr buf"
      "length' buf = (byteLength ?a div 2) div 2"
      "\<forall>c < 2. length (channels buf ! c) = (byteLength ?a div 2) div 2
          \<and> (\<forall>i < (byteLength ?a div 2) div 2.
                channels buf ! c ! i = Num (real_of_int (int16At (elements ?a) (i * 2 + c)) / 32768))"
    by blast
  have "channels buf ! 0 ! 0 = Num (1 / 2)" "channels buf ! 0 ! 1 = Num (32767 / 32768)"
      "channels buf ! 1 ! 0 = Num (- 1 / 2)" "channels buf ! 1 ! 1 = Num (- 1)"
    using b(3) s unfolding l e by simp_all
  with b(1,2) l have 1: "\<exists>buf. decodeAudioData ?a newAudioContext 24000 2 = Inr buf
        \<and> length' buf = 2
        \<and> channels buf ! 0 ! 0 = Num (1 / 2) \<and> channels buf ! 0 ! 1 = Num (32767 / 32768)
        \<and> channels buf ! 1 ! 0 = Num (- 1 / 2) \<and> channels buf ! 1 ! 1 = Num (- 1)"
    by simp
  have v: "byteOffset (Uint8Array_of []) = 0"
      "byteLength (Uint8Array_of []) = length (buffer' (Uint8Array_of []))"
      "even (byteLength (Uint8Array_of []))"
    by (simp_all add: Uint8Array_of_def)
  have z: "(byteLength (Uint8Array_of []) div 2) div 1 = 0"
    by (simp add: Uint8Array_of_def)
  from decodeAudioData_deinterleave [OF v, of 1 newAudioContext 24000] z
  have 2: "decodeAudioData (Uint8Array_of []) newAudioContext 24000 1 = Inl NotSupportedError"
    by blast
  from w h 1 z 2 show ?thesis by blast
qed

text \<open>
  The claim as worded, for every buffer, sample rate and channel count, fails on the
  empty array: its frame count is 0, and the platform's \<open>createBuffer\<close> rejects a
  length of 0. It fails as well for a channel count of 0 and for a sample rate of 0; for
  an array that views two bytes of a buffer of six, where all three samples of the buffer
  are decoded; and for \<open>2^32\<close> frames, a length that \<open>createBuffer\<close> takes for 0.
\<close>

theorem decodeAudioData_empty_counterexample:
  "decodeAudioData (Uint8Array_of []) newAudioContext 24000 1 = Inl NotSupportedError
   \<and> decodeAudioData (Uint8Array_of [0x00, 0x40]) newAudioContext 24000 0 = Inl NotSupportedError
   \<and> decodeAudioData (Uint8Array_of [0x00, 0x40]) newAudioContext 0 1 = Inl NotSupportedError
   \<and> elements \<lparr>buffer' = [0x00, 0x40, 0x00, 0xC0, 0xFF, 0x7F], byteOffset = 2, byteLength = 2\<rparr>
       = [0x00, 0xC0]
   \<and> decodeAudioData \<lparr>buffer' = [0x00, 0x40, 0x00, 0xC0, 0xFF, 0x7F], byteOffset = 2, byteLength = 2\<rparr>
         newAudioContext 24000 1
       = Inr \<lparr>numberOfChannels = 1, length' = 3, sampleRate = 24000,
              channels = [[Num (1 / 2), Num (- 1 / 2), Num (32767 / 32768)]]\<rparr>
   \<and> decodeAudioData (Uint8Array_of (replicate (2 ^ 33) 0)) newAudioContext 24000 1
       = Inl NotSupportedError"
proof -
  let ?b = "[0x00, 0x40, 0x00, 0xC0, 0xFF, 0x7F :: byte]"
  let ?v = "\<lparr>buffer' = ?b, byteOffset = 2, byteLength = 2\<rparr>"
  have 1: "decodeAudioData (Uint8Array_of []) newAudioContext 24000 1 = Inl NotSupportedError"
      "decodeAudioData (Uint8Array_of [0x00, 0x40]) newAudioContext 24000 0 = Inl NotSupportedError"
      "decodeAudioData (Uint8Array_of [0x00, 0x40]) newAudioContext 0 1 = Inl NotSupportedError"
    by (simp_all add: decodeAudioData_def Int16Array_def divide_lengths_def createBuffer_def
        to_unsigned_long_def newAudioContext_def Uint8Array_of_def)
  have 2: "elements ?v = [0x00, 0xC0]"
    by (simp add: elements_def)
  have s: "int16At ?b 0 = 16384" "int16At ?b 1 = - 16384" "int16At ?b (Suc (Suc 0)) = 32767"
    by (simp_all add: int16At_def word_cat_eq)
  have u: "[0 ..< 3] = [0, 1, 2]" "[0 ..< 1] = [0]"
    by (simp_all add: upt_rec)
  have 3: "decodeAudioData ?v newAudioContext 24000 1
      = Inr \<lparr>numberOfChannels = 1, length' = 3, sampleRate = 24000,
             channels = [[Num (1 / 2), Num (- 1 / 2), Num (32767 / 32768)]]\<rparr>"
    using decodeAudioData_even [of ?v 1 newAudioContext 24000] s
    by (simp add: newAudioContext_def u)
  have 4: "decodeAudioData (Uint8Array_of (replicate (2 ^ 33) 0)) newAudioContext 24000 1
      = Inl NotSupportedError"
    by (rule decodeAudioData_no_frame) (simp_all add: Uint8Array_of_def)
  from 1 2 3 4 show ?thesis by blast
qed

text \<open>
  C1, as the code has it. Let the array view the whole of its buffer, as the arrays made
  by \<open>decode\<close> do, and let its byte length not be a multiple of \<open>2 * C\<close>, with C and
  the sample rate accepted by the platform and at least one complete frame, fewer than
  \<open>2^32\<close> of them. When the byte length is odd, \<open>new Int16Array\<close> throws a
  RangeError. When it is even, nothing is thrown and the result holds exactly the N div C
  complete frames: the samples of the trailing partial frame are left out.
\<close>

theorem decodeAudioData_partial_frame:
  assumes "byteOffset data = 0" and "byteLength data = length (buffer' data)"
    and "byteLength data mod (2 * C) \<noteq> 0"
    and "0 < C" and "C \<le> maxNumberOfChannels ctx"
    and "minSampleRate ctx \<le> rate" and "rate \<le> maxSampleRate ctx"
    and "C \<le> byteLength data div 2" and "(byteLength data div 2) div C < 2 ^ 32"
  shows "decodeAudioData data ctx rate C =
     (if odd (byteLength data) then Inl RangeError
      else Inr \<lparr>numberOfChannels = C, length' = (byteLength data div 2) div C, sampleRate = rate,
             channels = map (\<lambda>c. map (\<lambda>i. Num (real_of_int (int16At (elements data) (i * C + c)) / 32768))
                                   [0 ..< (byteLength data div 2) div C]) [0 ..< C]\<rparr>)"
proof (cases "odd (byteLength data)")
  case True
  then show ?thesis using assms(2) by (simp add: decodeAudioData_odd)
next
  case False
  have "decodeAudioData data ctx rate C
      = Inr \<lparr>numberOfChannels = C, length' = (length (buffer' data) div 2) div C, sampleRate = rate,
            channels = map (\<lambda>c. map (\<lambda>i. Num (real_of_int (int16At (buffer' data) (i * C + c)) / 32768))
                                  [0 ..< (length (buffer' data) div 2) div C]) [0 ..< C]\<rparr>"
    using assms False by (intro decodeAudioData_even) simp_all
  then show ?thesis using False assms(1,2) by (simp add: elements_whole)
qed

theorem decodeAudioData_partial_frame_witness:
  "byteOffset (Uint8Array_of [0x00, 0x40, 0x00, 0xC0, 0xFF, 0x7F]) = 0
   \<and> byteLength (Uint8Array_of [0x00, 0x40, 0x00, 0xC0, 0xFF, 0x7F])
       = length (buffer' (Uint8Array_of [0x00, 0x40, 0x00, 0xC0, 0xFF, 0x7F]))
   \<and> byteLength (Uint8Array_of [0x00, 0x40, 0x00, 0xC0, 0xFF, 0x7F]) mod (2 * 2) \<noteq> 0
   \<and> byteLength (Uint8Array_of [0x00, 0x40, 0x00]) mod (2 * 1) \<noteq> 0
   \<and> decodeAudioData (Uint8Array_of [0x00, 0x40, 0x00, 0xC0, 0xFF, 0x7F]) newAudioContext 24000 2
       = Inr \<lparr>numberOfChannels = 2, length' = 1, sampleRate = 24000,
              channels = [[Num (1 / 2)], [Num (- 1 / 2)]]\<rparr>
   \<and> decodeAudioData (Uint8Array_of [0x00, 0x40, 0x00]) newAudioContext 24000 1 = Inl RangeError"
proof -
  let ?d = "[0x00, 0x40, 0x00, 0xC0, 0xFF, 0x7F :: byte]"
  let ?e = "[0x00, 0x40, 0x00 :: byte]"
  let ?a = "Uint8Array_of ?d"
  let ?o = "Uint8Array_of ?e"
  have h: "byteOffset ?a = 0" "byteLength ?a = length (buffer' ?a)"
      "byteLength ?a mod (2 * 2) \<noteq> 0" "(0::nat) < 2" "2 \<le> maxNumberOfChannels newAudioContext"
      "minSampleRate newAudioContext \<le> 24000" "24000 \<le> maxSampleRate newAudioContext"
      "2 \<le> byteLength ?a div 2" "(byteLength ?a div 2) div 2 < 2 ^ 32"
    by (simp_all add: newAudioContext_def Uint8Array_of_def)
  have k: "byteOffset ?o = 0" "byteLength ?o = length (buffer' ?o)"
      "byteLength ?o mod (2 * 1) \<noteq> 0" "(0::nat) < 1" "1 \<le> maxNumberOfChannels newAudioContext"
      "1 \<le> byteLength ?o div 2" "(byteLength ?o div 2) div 1 < 2 ^ 32"
    by (simp_all add: newAudioContext_def Uint8Array_of_def)
  have e: "elements ?a = ?d" "byteLength ?a = 6" "byteLength ?o = 3"
    by (simp_all add: elements_def Uint8Array_of_def)
  have s: "int16At ?d 0 = 16384" "int16At ?d 1 = - 16384"
    by (simp_all add: int16At_def word_cat_eq)
  have u: "[0 ..< 2] = [0, Suc 0]" "[0 ..< 1] = [0]"
    by (simp_all add: upt_rec)
  from decodeAudioData_partial_frame [OF h]
  have 1: "decodeAudioData ?a newAudioContext 24000 2
       = Inr \<lparr>numberOfChannels = 2, length' = 1, sampleRate = 24000,
              channels = [[Num (1 / 2)], [Num (- 1 / 2)]]\<rparr>"
    using s unfolding e by (simp add: u)
  from decodeAudioData_partial_frame [OF k(1,2,3,4,5) h(6,7) k(6,7)]
  have 2: "decodeAudioData ?o newAudioContext 24000 1 = Inl RangeError"
    unfolding e by simp
  from 1 2 h(1,2,3) k(3) show ?thesis by simp
qed

text \<open>
  The claim as worded, "never throws" and "exactly floor(N/C) frames", fails on three
  bytes with one channel; on one sample with two channels, where no frame is complete; on
  an array that views three bytes of a buffer of six, where the three samples of the
  buffer are decoded; and on \<open>2^33 + 1\<close> samples with two channels, whose \<open>2^32\<close> frames
  \<open>createBuffer\<close> takes for 0.
\<close>

theorem decodeAudioData_odd_counterexample:
  "byteLength (Uint8Array_of [0x00, 0x40, 0x00]) mod (2 * 1) \<noteq> 0
   \<and> decodeAudioData (Uint8Array_of [0x00, 0x40, 0x00]) newAudioContext 24000 1 = Inl RangeError
   \<and> byteLength (Uint8Array_of [0x00, 0x40]) mod (2 * 2) \<noteq> 0
   \<and> decodeAudioData (Uint8Array_of [0x00, 0x40]) newAudioContext 24000 2 = Inl NotSupportedError
   \<and> byteLength \<lparr>buffer' = [0x00, 0x40, 0x00, 0xC0, 0xFF, 0x7F], byteOffset = 0, byteLength = 3\<rparr>
       mod (2 * 1) \<noteq> 0
   \<and> decodeAudioData \<lparr>buffer' = [0x00, 0x40, 0x00, 0xC0, 0xFF, 0x7F], byteOffset = 0, byteLength = 3\<rparr>
         newAudioContext 24000 1
       = Inr \<lparr>numberOfChannels = 1, length' = 3, sampleRate = 24000,
              channels = [[Num (1 / 2), Num (- 1 / 2), Num (32767 / 32768)]]\<rparr>
   \<and> byteLength (Uint8Array_of (replicate (2 ^ 34 + 2) 0)) mod (2 * 2) \<noteq> 0
   \<and> decodeAudioData (Uint8Array_of (replicate (2 ^ 34 + 2) 0)) newAudioContext 24000 2
       = Inl NotSupportedError"
proof -
  let ?b = "[0x00, 0x40, 0x00, 0xC0, 0xFF, 0x7F :: byte]"
  let ?v = "\<lparr>buffer' = ?b, byteOffset = 0, byteLength = 3\<rparr>"
  have 1: "byteLength (Uint8Array_of [0x00, 0x40, 0x00]) mod (2 * 1) \<noteq> 0"
      "decodeAudioData (Uint8Array_of [0x00, 0x40, 0x00]) newAudioContext 24000 1 = Inl RangeError"
      "byteLength (Uint8Array_of [0x00, 0x40]) mod (2 * 2) \<noteq> 0"
      "decodeAudioData (Uint8Array_of [0x00, 0x40]) newAudioContext 24000 2 = Inl NotSupportedError"
      "byteLength ?v mod (2 * 1) \<noteq> 0"
    by (simp_all add: decodeAudioData_def Int16Array_def divide_lengths_def createBuffer_def
        to_unsigned_long_def newAudioContext_def Uint8Array_of_def)
  have s: "int16At ?b 0 = 16384" "int16At ?b 1 = - 16384" "int16At ?b (Suc (Suc 0)) = 32767"
    by (simp_all add: int16At_def word_cat_eq)
  have u: "[0 ..< 3] = [0, 1, 2]" "[0 ..< 1] = [0]"
    by (simp_all add: upt_rec)
  have 2: "decodeAudioData ?v newAudioContext 24000 1
      = Inr \<lparr>numberOfChannels = 1, length' = 3, sampleRate = 24000,
             channels = [[Num (1 / 2), Num (- 1 / 2), Num (32767 / 32768)]]\<rparr>"
    using decodeAudioData_even [of ?v 1 newAudioContext 24000] s
    by (simp add: newAudioContext_def u)
  have 3: "byteLength (Uint8Array_of (replicate (2 ^ 34 + 2) 0)) mod (2 * 2) \<noteq> 0"
    by (simp add: Uint8Array_of_def)
  have 4: "decodeAudioData (Uint8Array_of (replicate (2 ^ 34 + 2) 0)) newAudioContext 24000 2
      = Inl NotSupportedError"
    by (rule decodeAudioData_no_frame) (simp_all add: Uint8Array_of_def)
  from 1 2 3 4 show ?thesis by blast
qed

subsection \<open>Bytes as text\<close>

lemma b64char_of_nat:
  "n < 64 \<Longrightarrow> b64char n = of_nat
     (if n < 26 then 65 + n else if n < 52 then 97 + (n - 26) else if n < 62 then 48 + (n - 52)
      else if n = 62 then 43 else 47)"
  by (simp add: b64char_def)

lemma unat_b64char:
  assumes "n < 64"
  shows "unat (b64char n) =
     (if n < 26 then 65 + n else if n < 52 then 71 + n else if n < 62 then n - 4
      else if n = 62 then 43 else 47)"
proof -
  let ?m = "if n < 26 then 65 + n else if n < 52 then 97 + (n - 26) else if n < 62 then 48 + (n - 52)
      else if n = 62 then 43 else 47"
  have "?m < 2 ^ 16" using assms by auto
  then have "unat (of_nat ?m :: 16 word) = ?m"
    by (simp add: unat_of_nat)
  then have "unat (b64char n) = ?m"
    using b64char_of_nat [OF assms] by simp
  then show ?thesis using assms by auto
qed

lemma b64val_b64char: "n < 64 \<Longrightarrow> b64val (b64char n) = Some n"
  using unat_b64char [of n]
  by (auto simp: b64val_def word_le_nat_alt word_unat_eq_iff split: if_splits)

lemma b64char_not_pad: "n < 64 \<Longrightarrow> b64char n \<noteq> pad"
  using unat_b64char [of n]
  by (auto simp: pad_def word_unat_eq_iff split: if_splits)

lemma b64char_not_space: "n < 64 \<Longrightarrow> \<not> isAsciiWhitespace (b64char n)"
  using unat_b64char [of n]
  by (auto simp: isAsciiWhitespace_def word_unat_eq_iff split: if_splits)


lemma sextets_bound: "list_all (\<lambda>v. v < 256) bs \<Longrightarrow> list_all (\<lambda>v. v < 64) (sextets bs)"
  by (induction bs rule: sextets.induct) auto

lemma regroup:
  fixes a b c :: nat
  assumes "b < 256" and "c < 256"
  shows "(a div 4) * 4 + ((a mod 4) * 16 + b div 16) div 16 = a"
    and "(((a mod 4) * 16 + b div 16) mod 16) * 16 + ((b mod 16) * 4 + c div 64) div 4 = b"
    and "(((b mod 16) * 4 + c div 64) mod 4) * 64 + c mod 64 = c"
    and "(((a mod 4) * 16 + b div 16) mod 16) * 16 + ((b mod 16) * 4) div 4 = b"
    and "(a div 4) * 4 + ((a mod 4) * 16) div 16 = a"
proof -
  have x: "b div 16 < 16" and y: "c div 64 < 4"
    using assms by simp_all
  show "(a div 4) * 4 + ((a mod 4) * 16 + b div 16) div 16 = a"
    using x by simp
  show "(((a mod 4) * 16 + b div 16) mod 16) * 16 + ((b mod 16) * 4 + c div 64) div 4 = b"
    using x y by simp
  show "(((b mod 16) * 4 + c div 64) mod 4) * 64 + c mod 64 = c"
    using y by simp
  show "(((a mod 4) * 16 + b div 16) mod 16) * 16 + ((b mod 16) * 4) div 4 = b"
    using x by simp
  show "(a div 4) * 4 + ((a mod 4) * 16) div 16 = a"
    by simp
qed

lemma octets_sextets: "list_all (\<lambda>v. v < 256) bs \<Longrightarrow> octets (sextets bs) = bs"
proof (induction bs rule: sextets.induct)
  case (1 a b c rest)
  then show ?case using regroup(1,2) [of b c a] regroup(3) [of b c] by simp
next
  case (2 a b)
  then show ?case using regroup(1,4) [of b 0 a] by simp
next
  case (3 a)
  then show ?case by simp
qed simp


lemma length_sextets_pad: "(length (sextets bs) + (3 - length bs mod 3) mod 3) mod 4 = 0"
proof (induction bs rule: sextets.induct)
  case (1 a b c rest)
  have "length (a # b # c # rest) mod 3 = length rest mod 3"
    by (simp add: Suc3_eq_add_3)
  moreover have "length (sextets (a # b # c # rest)) = 4 + length (sextets rest)"
    by simp
  ultimately show ?case using 1 by (simp only: add.assoc mod_add_self1)
qed simp_all

lemma length_sextets_mod: "length (sextets bs) mod 4 \<noteq> 1"
proof (induction bs rule: sextets.induct)
  case (1 a b c rest)
  have "length (sextets (a # b # c # rest)) = 4 + length (sextets rest)"
    by simp
  then show ?case using 1 by (simp only: mod_add_self1 not_False_eq_True)
qed simp_all


lemma strip_padding_append:
  assumes "pad \<notin> set body" and "k \<le> 2" and "(length body + k) mod 4 = 0"
  shows "strip_padding (body @ replicate k pad) = body"
proof -
  have b: "body \<noteq> [] \<Longrightarrow> last body \<noteq> pad"
    using assms(1) last_in_set by metis
  consider "k = 0" | "k = 1" | "k = 2" using assms(2) by linarith
  then show ?thesis
  proof cases
    case 1
    have "\<not> (length body mod 4 = 0 \<and> body \<noteq> [] \<and> last body = pad)"
      using b by blast
    then have "strip_padding body = body"
      unfolding strip_padding_def by (rule if_not_P)
    then show ?thesis using 1 by simp
  next
    case 2
    then have s: "body @ replicate k pad = body @ [pad]" by simp
    have "body \<noteq> []" using assms(3) 2 by auto
    then show ?thesis using b assms(3) 2 unfolding s by (simp add: strip_padding_def)
  next
    case 3
    then have s: "body @ replicate k pad = (body @ [pad]) @ [pad]" by (simp add: numeral_2_eq_2)
    have "body \<noteq> []"
    proof
      assume "body = []"
      with assms(3) 3 have "(2::nat) mod 4 = 0" by simp
      then show False by simp
    qed
    then show ?thesis using b assms(3) 3 unfolding s
      by (simp add: strip_padding_def del: append_assoc)
  qed
qed


lemma those_b64val:
  "list_all (\<lambda>v. v < 64) vs \<Longrightarrow> those (map b64val (map b64char vs)) = Some vs"
  by (induction vs) (simp_all add: b64val_b64char)

lemma unat_ucast_byte: "unat (ucast (x :: byte) :: 16 word) = unat x"
proof -
  have "unat x < 2 ^ 8" using unsigned_less [of x] by simp
  then have "unat x < 2 ^ 16" by simp
  then show ?thesis by (simp add: unsigned_ucast_eq take_bit_nat_eq_self)
qed

lemma atob_btoa:
  assumes "list_all (\<lambda>c. c \<le> 0xFF) s"
  shows "\<exists>t. btoa s = Inr t \<and> atob t = Inr s"
proof -
  let ?bs = "map unat s"
  let ?body = "map b64char (sextets ?bs)"
  let ?k = "(3 - length s mod 3) mod 3"
  let ?t = "?body @ replicate ?k pad"
  have bs: "list_all (\<lambda>v. v < 256) ?bs"
    using assms by (induction s) (simp_all add: word_le_nat_alt)
  have v: "list_all (\<lambda>v. v < 64) (sextets ?bs)"
    using bs by (rule sextets_bound)
  have np: "pad \<notin> set ?body"
  proof
    assume "pad \<in> set ?body"
    then obtain x where "x \<in> set (sextets ?bs)" "pad = b64char x" by auto
    with v b64char_not_pad [of x] show False by (simp add: list_all_iff)
  qed
  have "\<not> isAsciiWhitespace c" if "c \<in> set ?t" for c
  proof (cases "c \<in> set ?body")
    case True
    then obtain x where "x \<in> set (sextets ?bs)" "c = b64char x" by auto
    with v b64char_not_space [of x] show ?thesis by (simp add: list_all_iff)
  next
    case False
    with that have "c = pad" by (auto split: if_splits)
    then show ?thesis by (simp add: isAsciiWhitespace_def pad_def)
  qed
  then have ns: "filter (\<lambda>c. \<not> isAsciiWhitespace c) ?t = ?t"
    by (simp only: filter_id_conv) blast
  have len: "(length ?body + ?k) mod 4 = 0"
    using length_sextets_pad [of ?bs] by simp
  have sp: "strip_padding ?t = ?body"
    by (rule strip_padding_append [OF np _ len]) simp
  have m: "length ?body mod 4 \<noteq> 1"
    using length_sextets_mod [of ?bs] by simp
  have oct: "map of_nat (octets (sextets ?bs)) = s"
    using bs by (simp add: octets_sextets map_idI)
  have "btoa s = Inr ?t"
    using assms by (simp add: btoa_def)
  moreover have "atob ?t = Inr s"
    unfolding atob_def ns sp Let_def those_b64val [OF v] using m by (simp add: oct)
  ultimately show ?thesis by blast
qed

text \<open>
  C3. For every sequence of bytes, the empty one and those that are not valid UTF-8
  included, \<open>encode\<close> returns a text and \<open>decode\<close> of that text returns the bytes.
\<close>

theorem decode_encode: "\<exists>t. encode b = Inr t \<and> decode t = Inr b"
proof -
  let ?s = "map ucast b :: jsstring"
  have "(ucast x :: 16 word) \<le> 0xFF" for x :: byte
  proof -
    have "unat x < 2 ^ 8" using unsigned_less [of x] by simp
    then show ?thesis by (simp add: word_le_nat_alt unat_ucast_byte)
  qed
  then have "list_all (\<lambda>c. c \<le> 0xFF) ?s"
    by (simp add: list_all_iff)
  from atob_btoa [OF this] obtain t where t: "btoa ?s = Inr t" "atob t = Inr ?s"
    by blast
  have "map ucast ?s = b"
    by (simp add: map_idI ucast_up_ucast_id is_up)
  with t show ?thesis
    by (simp add: encode_def decode_def)
qed

text \<open>Two concrete texts: the bytes of "Man", and two bytes that are not UTF-8.\<close>

lemma encode_examples:
  "encode [0x4D, 0x61, 0x6E] = Inr (lit ''TWFu'')"
  "encode [0xFF, 0xFE] = Inr (lit ''//4='')"
  "decode (lit ''//4='') = Inr [0xFF, 0xFE]"
  "encode [] = Inr []"
  by (simp_all add: encode_def decode_def btoa_def atob_def b64char_def b64val_def pad_def lit_def
      strip_padding_def isAsciiWhitespace_def)

subsection \<open>The reply to the suggestion request\<close>

lemmas json_eval = generateStorySuggestions_result_def or_else_def JSON_parse_def tokens_def
  lex_step_def lex_start_def lex_escape_def lex_end_def word_token_def lit_def isJsonSpace_def
  isDigit_def isLower_def isNumberChar_def parse_step_def begin_value_def valid_number_def
  valid_fraction_def valid_exponent_def digits_then_def

text \<open>The text of an array of suggestions parses to the suggestions, in their order.\<close>

lemma lex_from_append:
  "lex_from st (a @ b) = (case lex_from st a of None \<Rightarrow> None | Some st' \<Rightarrow> lex_from st' b)"
  by (induction a arbitrary: st) (auto split: option.splits)

lemma hexval_hexdigit:
  fixes d :: "16 word"
  assumes "d < 16"
  shows "hexval (hexdigit d) = Some d"
proof (cases "d < 10")
  case True
  then have u: "unat d < 10" by (simp add: word_less_nat_alt)
  then have "unat (0x30 + d) = 48 + unat d"
    by (simp add: unat_word_ariths)
  with u have "0x30 \<le> 0x30 + d \<and> 0x30 + d \<le> 0x39"
    by (simp add: word_le_nat_alt)
  then show ?thesis using True by (simp add: hexval_def hexdigit_def)
next
  case False
  then have ge: "10 \<le> d" by simp
  have u: "unat d < 16" "10 \<le> unat d"
    using assms ge by (simp_all add: word_less_nat_alt word_le_nat_alt)
  have "unat (d - 10) = unat d - 10"
    using ge by (simp add: unat_sub)
  with u have "unat (0x61 + (d - 10)) = 87 + unat d"
    by (simp add: unat_word_ariths)
  with u have "\<not> 0x61 + (d - 10) \<le> 0x39" "\<not> 0x61 + (d - 10) \<le> 0x46"
      "0x61 \<le> 0x61 + (d - 10)" "0x61 + (d - 10) \<le> 0x66"
    by (simp_all add: word_le_nat_alt)
  then show ?thesis using False by (simp add: hexval_def hexdigit_def)
qed

lemma control_digits:
  fixes c :: "16 word"
  assumes "c < 0x20"
  shows "c div 16 < 16" and "c mod 16 < 16" and "c div 16 * 16 + c mod 16 = c"
proof -
  have "unat c < 32" using assms by (simp add: word_less_nat_alt)
  then have "unat (c div 16) < 16" by (simp add: unat_div)
  then show "c div 16 < 16" by (simp add: word_less_nat_alt)
  show "c mod 16 < 16" by (rule word_mod_less_divisor) simp
  show "c div 16 * 16 + c mod 16 = c" by (rule div_mult_mod_eq)
qed


lemma lex_escape_char: "lex_from (LString acc, ts) (escape c) = Some (LString (acc @ [c]), ts)"
proof -
  consider "c = 0x22" | "c = 0x5C" | "c \<noteq> 0x22" "c \<noteq> 0x5C" "c < 0x20"
    | "c \<noteq> 0x22" "c \<noteq> 0x5C" "\<not> c < 0x20"
    by blast
  then show ?thesis
  proof cases
    case 1
    then show ?thesis by (simp add: escape_def lex_step_def lex_escape_def)
  next
    case 2
    then show ?thesis by (simp add: escape_def lex_step_def lex_escape_def)
  next
    case 3
    have h: "hexval 0x30 = Some 0"
      by (simp add: hexval_def)
    have "lex_from (LString acc, ts) [0x5C, 0x75, 0x30, 0x30, hexdigit (c div 16), hexdigit (c mod 16)]
        = Some (LString (acc @ [c div 16 * 16 + c mod 16]), ts)"
      using control_digits(1,2) [OF 3(3)]
      by (simp add: lex_step_def lex_escape_def h hexval_hexdigit)
    then show ?thesis using 3 by (simp add: escape_def control_digits(3))
  next
    case 4
    then show ?thesis by (simp add: escape_def lex_step_def)
  qed
qed

lemma lex_string_body:
  "lex_from (LString acc, ts) (concat (map escape s)) = Some (LString (acc @ s), ts)"
  by (induction s arbitrary: acc) (simp_all add: lex_from_append lex_escape_char)

lemma lex_quote:
  "lex_from (LStart, ts) (quote s @ rest) = lex_from (LStart, ts @ [TString s]) rest"
proof -
  have "lex_from (LStart, ts) (quote s @ rest)
      = lex_from (LString [], ts) (concat (map escape s) @ (0x22 # rest))"
    by (simp add: quote_def lex_step_def lex_start_def isJsonSpace_def)
  also have "\<dots> = lex_from (LString s, ts) (0x22 # rest)"
    by (simp add: lex_from_append lex_string_body)
  also have "\<dots> = lex_from (LStart, ts @ [TString s]) rest"
    by (simp add: lex_step_def)
  finally show ?thesis .
qed


lemma lex_suggestion:
  "lex_from (LStart, ts) (suggestion_text x @ rest)
     = lex_from (LStart, ts @ [TLBrace, TString (lit ''type''), TColon, TString (fst x), TComma,
                               TString (lit ''text''), TColon, TString (snd x), TRBrace]) rest"
proof -
  have a: \<open>lex_from (LStart, ts) (lit ''{"type":'')
      = Some (LStart, ts @ [TLBrace, TString (lit ''type''), TColon])\<close> for ts
    by (simp add: lit_def lex_step_def lex_start_def isJsonSpace_def)
  have b: \<open>lex_from (LStart, ts) (lit '',"text":'')
      = Some (LStart, ts @ [TComma, TString (lit ''text''), TColon])\<close> for ts
    by (simp add: lit_def lex_step_def lex_start_def isJsonSpace_def)
  have c: \<open>lex_from (LStart, ts) (lit ''}'') = Some (LStart, ts @ [TRBrace])\<close> for ts
    by (simp add: lit_def lex_step_def lex_start_def isJsonSpace_def)
  have \<open>lex_from (LStart, ts) (suggestion_text x @ rest)
      = lex_from (LStart, ts)
          (lit ''{"type":'' @ (quote (fst x) @ (lit '',"text":'' @ (quote (snd x) @ (lit ''}'' @ rest)))))\<close>
    by (simp add: suggestion_text_def)
  also have "\<dots> = lex_from (LStart, ts @ [TLBrace, TString (lit ''type''), TColon, TString (fst x),
      TComma, TString (lit ''text''), TColon, TString (snd x), TRBrace]) rest"
    unfolding lex_from_append [of _ "lit _"] a b option.case lex_quote c by simp
  finally show ?thesis .
qed


lemma lex_more_suggestions:
  "lex_from (LStart, ts) (concat (map (\<lambda>y. comma # suggestion_text y) r) @ rest)
     = lex_from (LStart, ts @ concat (map (\<lambda>y. TComma # suggestion_tokens y) r)) rest"
proof (induction r arbitrary: ts)
  case Nil
  show ?case by simp
next
  case (Cons y r)
  have "lex_from (LStart, ts) (concat (map (\<lambda>y. comma # suggestion_text y) (y # r)) @ rest)
      = lex_from (LStart, ts @ [TComma])
          (suggestion_text y @ (concat (map (\<lambda>y. comma # suggestion_text y) r) @ rest))"
    by (simp add: comma_def lex_step_def lex_start_def isJsonSpace_def)
  also have "\<dots> = lex_from (LStart, (ts @ [TComma]) @ suggestion_tokens y)
      (concat (map (\<lambda>y. comma # suggestion_text y) r) @ rest)"
    unfolding lex_suggestion suggestion_tokens_def ..
  also have "\<dots> = lex_from (LStart, ((ts @ [TComma]) @ suggestion_tokens y)
      @ concat (map (\<lambda>y. TComma # suggestion_tokens y) r)) rest"
    by (rule Cons.IH)
  finally show ?case by simp
qed

lemma tokens_suggestions_text:
  "tokens (suggestions_text ss)
     = Some ([TLBracket]
        @ (case ss of [] \<Rightarrow> []
           | x # r \<Rightarrow> suggestion_tokens x @ concat (map (\<lambda>y. TComma # suggestion_tokens y) r))
        @ [TRBracket])"
proof (cases ss)
  case Nil
  then show ?thesis
    by (simp add: tokens_def suggestions_text_def lex_step_def lex_start_def isJsonSpace_def lex_end_def)
next
  case (Cons x r)
  have e: "lex_from (LStart, ts) [0x5D] = Some (LStart, ts @ [TRBracket])" for ts
    by (simp add: lex_step_def lex_start_def isJsonSpace_def)
  have "lex_from (LStart, []) (suggestions_text ss)
      = lex_from (LStart, [TLBracket])
          (suggestion_text x @ (concat (map (\<lambda>y. comma # suggestion_text y) r) @ [0x5D]))"
    using Cons by (simp add: suggestions_text_def lex_step_def lex_start_def isJsonSpace_def)
  also have "\<dots> = lex_from (LStart, [TLBracket] @ suggestion_tokens x)
      (concat (map (\<lambda>y. comma # suggestion_text y) r) @ [0x5D])"
    unfolding lex_suggestion suggestion_tokens_def ..
  also have "\<dots> = lex_from (LStart, ([TLBracket] @ suggestion_tokens x)
      @ concat (map (\<lambda>y. TComma # suggestion_tokens y) r)) [0x5D]"
    by (rule lex_more_suggestions)
  also have "\<dots> = Some (LStart, (([TLBracket] @ suggestion_tokens x)
      @ concat (map (\<lambda>y. TComma # suggestion_tokens y) r)) @ [TRBracket])"
    by (rule e)
  finally show ?thesis using Cons by (simp add: tokens_def lex_end_def)
qed

lemma parse_from_append:
  "parse_from s (a @ b) = (case parse_from s a of None \<Rightarrow> None | Some s' \<Rightarrow> parse_from s' b)"
  by (induction a arbitrary: s) (auto split: option.splits)

lemma parse_suggestion:
  "parse_from (SValue (InArr es # st)) (suggestion_tokens x)
     = Some (SArrNext st (es @ [suggestion_json x]))"
  by (simp add: suggestion_tokens_def suggestion_json_def parse_step_def begin_value_def lit_def)

lemma parse_first_suggestion:
  "parse_from (SArrStart st) (suggestion_tokens x) = Some (SArrNext st [suggestion_json x])"
  by (simp add: suggestion_tokens_def suggestion_json_def parse_step_def begin_value_def lit_def)

lemma parse_more_suggestions:
  "parse_from (SArrNext st es) (concat (map (\<lambda>y. TComma # suggestion_tokens y) r))
     = Some (SArrNext st (es @ map suggestion_json r))"
proof (induction r arbitrary: es)
  case Nil
  show ?case by simp
next
  case (Cons y r)
  have "parse_from (SArrNext st es) (concat (map (\<lambda>y. TComma # suggestion_tokens y) (y # r)))
      = parse_from (SValue (InArr es # st))
          (suggestion_tokens y @ concat (map (\<lambda>y. TComma # suggestion_tokens y) r))"
    by (simp add: parse_step_def)
  also have "\<dots> = parse_from (SArrNext st (es @ [suggestion_json y]))
      (concat (map (\<lambda>y. TComma # suggestion_tokens y) r))"
    by (simp add: parse_from_append parse_suggestion)
  also have "\<dots> = Some (SArrNext st ((es @ [suggestion_json y]) @ map suggestion_json r))"
    by (rule Cons.IH)
  finally show ?case by simp
qed

lemma JSON_parse_suggestions_text:
  "JSON_parse (suggestions_text ss) = Inr (JArray (map suggestion_json ss))"
proof (cases ss)
  case Nil
  then show ?thesis
    by (simp add: JSON_parse_def tokens_suggestions_text parse_step_def begin_value_def)
next
  case (Cons x r)
  have "parse_from (SValue [])
      ([TLBracket] @ (suggestion_tokens x @ (concat (map (\<lambda>y. TComma # suggestion_tokens y) r)
         @ [TRBracket])))
      = parse_from (SArrStart [])
          (suggestion_tokens x @ (concat (map (\<lambda>y. TComma # suggestion_tokens y) r) @ [TRBracket]))"
    by (simp add: parse_step_def begin_value_def)
  also have "\<dots> = parse_from (SArrNext [] [suggestion_json x])
      (concat (map (\<lambda>y. TComma # suggestion_tokens y) r) @ [TRBracket])"
    by (simp add: parse_from_append parse_first_suggestion)
  also have "\<dots> = parse_from (SArrNext [] ([suggestion_json x] @ map suggestion_json r)) [TRBracket]"
    by (simp add: parse_from_append parse_more_suggestions)
  also have "\<dots> = Some (SDone (JArray (map suggestion_json ss)))"
    using Cons by (simp add: parse_step_def)
  finally show ?thesis
    using Cons by (simp add: JSON_parse_def tokens_suggestions_text)
qed

text \<open>
  C4, as the code has it. The reply text (or \<open>[]\<close> when it is missing or empty) is
  parsed: when it is valid JSON the parsed value is returned as it is, whatever its
  shape; when it is not valid JSON the empty array is returned and no error leaves the
  function. In particular the text of an array of objects with the two fields comes back
  as the sequence of these objects, in their order.
\<close>

theorem suggestions_result_parse:
  "(JSON_parse (or_else t (lit ''[]'')) = Inr v \<longrightarrow> generateStorySuggestions_result t = v)
   \<and> (JSON_parse (or_else t (lit ''[]'')) = Inl e \<longrightarrow> generateStorySuggestions_result t = JArray [])
   \<and> generateStorySuggestions_result None = JArray []
   \<and> generateStorySuggestions_result (Some []) = JArray []
   \<and> generateStorySuggestions_result (Some (suggestions_text ss)) = JArray (map suggestion_json ss)"
proof -
  have "or_else (Some (suggestions_text ss)) (lit ''[]'') = suggestions_text ss"
    by (simp add: or_else_def suggestions_text_def)
  then have "generateStorySuggestions_result (Some (suggestions_text ss))
      = JArray (map suggestion_json ss)"
    by (simp add: generateStorySuggestions_result_def JSON_parse_suggestions_text)
  then show ?thesis
    by (simp add: json_eval)
qed

theorem suggestions_result_parse_witness:
  \<open>suggestions_text [(lit ''plot'', lit ''a''), (lit ''character'', lit ''b''), (lit ''setting'', lit ''c'')]
     = lit ''[{"type":"plot","text":"a"},{"type":"character","text":"b"},{"type":"setting","text":"c"}]''
   \<and> JSON_parse (or_else (Some (lit ''[{"type":"plot","text":"a"},{"type":"character","text":"b"},{"type":"setting","text":"c"}]'')) (lit ''[]''))
     = Inr (JArray [JObject [(lit ''type'', JString (lit ''plot'')), (lit ''text'', JString (lit ''a''))],
                    JObject [(lit ''type'', JString (lit ''character'')), (lit ''text'', JString (lit ''b''))],
                    JObject [(lit ''type'', JString (lit ''setting'')), (lit ''text'', JString (lit ''c''))]])
   \<and> generateStorySuggestions_result (Some (lit ''[{"type":"plot","text":"a"},{"type":"character","text":"b"},{"type":"setting","text":"c"}]''))
     = JArray [JObject [(lit ''type'', JString (lit ''plot'')), (lit ''text'', JString (lit ''a''))],
               JObject [(lit ''type'', JString (lit ''character'')), (lit ''text'', JString (lit ''b''))],
               JObject [(lit ''type'', JString (lit ''setting'')), (lit ''text'', JString (lit ''c''))]]
   \<and> JSON_parse (or_else (Some (lit ''[{"type":"plot",'')) (lit ''[]'')) = Inl SyntaxError
   \<and> generateStorySuggestions_result (Some (lit ''[{"type":"plot",'')) = JArray []\<close>
proof -
  let ?ss = "[(lit ''plot'', lit ''a''), (lit ''character'', lit ''b''), (lit ''setting'', lit ''c'')]"
  let ?t = \<open>lit ''[{"type":"plot","text":"a"},{"type":"character","text":"b"},{"type":"setting","text":"c"}]''\<close>
  let ?v = "JArray [JObject [(lit ''type'', JString (lit ''plot'')), (lit ''text'', JString (lit ''a''))],
                    JObject [(lit ''type'', JString (lit ''character'')), (lit ''text'', JString (lit ''b''))],
                    JObject [(lit ''type'', JString (lit ''setting'')), (lit ''text'', JString (lit ''c''))]]"
  let ?u = \<open>lit ''[{"type":"plot",''\<close>
  have s: "suggestions_text ?ss = ?t"
    by (simp add: suggestions_text_def suggestion_text_def quote_def escape_def comma_def lit_def)
  have q: "JSON_parse (or_else (Some ?u) (lit ''[]'')) = Inl SyntaxError"
    by (simp add: json_eval)
  from suggestions_result_parse [of "Some ?t" _ _ ?ss]
  have 1: "generateStorySuggestions_result (Some ?t) = ?v"
    unfolding s by (simp add: suggestion_json_def)
  from suggestions_result_parse [of "Some ?u" _ SyntaxError "[]"] q
  have 2: "generateStorySuggestions_result (Some ?u) = JArray []" by blast
  have p: "JSON_parse (or_else (Some ?t) (lit ''[]'')) = Inr ?v"
    using JSON_parse_suggestions_text [of ?ss] unfolding s
    by (simp add: suggestion_json_def or_else_def lit_def)
  from s p q 1 2 show ?thesis by blast
qed

text \<open>
  The claim as worded fails on replies that are valid JSON but not suggestions: a missing
  field, a field of the wrong type and a value that is not an array all come back
  unchanged, not as the empty array.
\<close>

theorem suggestions_unvalidated_counterexample:
  \<open>generateStorySuggestions_result (Some (lit ''[{"type":"plot"}]''))
     = JArray [JObject [(lit ''type'', JString (lit ''plot''))]]
   \<and> \<not> is_StorySuggestion (JObject [(lit ''type'', JString (lit ''plot''))])
   \<and> generateStorySuggestions_result (Some (lit ''[{"type":1,"text":"x"}]''))
     = JArray [JObject [(lit ''type'', JNumber (lit ''1'')), (lit ''text'', JString (lit ''x''))]]
   \<and> \<not> is_StorySuggestion (JObject [(lit ''type'', JNumber (lit ''1'')), (lit ''text'', JString (lit ''x''))])
   \<and> generateStorySuggestions_result (Some (lit ''{"type":"plot","text":"x"}''))
     = JObject [(lit ''type'', JString (lit ''plot'')), (lit ''text'', JString (lit ''x''))]\<close>
  by (simp add: json_eval is_StorySuggestion_def)

lemma conforms_suggestionSchema:
  "conforms suggestionSchema v =
     (\<exists>objs. v = JArray objs
        \<and> list_all (\<lambda>x. \<exists>ms k t. x = JObject ms
              \<and> map_of ms (lit ''type'') = Some (JString k)
              \<and> map_of ms (lit ''text'') = Some (JString t)) objs)"
proof -
  have one: "conforms (SObject [(lit ''type'', SString d), (lit ''text'', SString None)]
        [lit ''type'', lit ''text'']) x
      = (\<exists>ms k t. x = JObject ms \<and> map_of ms (lit ''type'') = Some (JString k)
            \<and> map_of ms (lit ''text'') = Some (JString t))" for x d
    by (cases x) (auto split: option.splits json.splits)
  show ?thesis
  proof (cases v)
    case (JArray objs)
    have l: "list_all (conforms (SObject [(lit ''type'', SString d), (lit ''text'', SString None)]
          [lit ''type'', lit ''text''])) objs
        = list_all (\<lambda>x. \<exists>ms k t. x = JObject ms
              \<and> map_of ms (lit ''type'') = Some (JString k)
              \<and> map_of ms (lit ''text'') = Some (JString t)) objs" for d
      by (rule arg_cong [where f = "\<lambda>p. list_all p objs"]) (rule ext, rule one)
    show ?thesis
      unfolding suggestionSchema_def JArray conforms.simps json.case l by simp
  qed (simp_all add: suggestionSchema_def)
qed

text \<open>
  C5, as the code has it. The request asks for JSON under a response schema: an array of
  objects with the two required string properties \<open>type\<close> (the kind of the
  specification) and \<open>text\<close>. A value fits this schema exactly when it is an array of
  objects that each have a string \<open>type\<close> and a string \<open>text\<close>. The three kinds are
  named in the description of the property only.
\<close>

theorem suggestion_request_schema:
  "responseMimeType (config (generateStorySuggestions_request b m p l)) = Some (lit ''application/json'')
   \<and> responseSchema (config (generateStorySuggestions_request b m p l))
       = Some (SArray (SObject
           [(lit ''type'', SString (Some (lit ''Must be 'plot', 'character', or 'setting'' @ [0x27]))),
            (lit ''text'', SString None)]
           [lit ''type'', lit ''text'']))
   \<and> conforms suggestionSchema v =
       (\<exists>objs. v = JArray objs
          \<and> list_all (\<lambda>x. \<exists>ms k t. x = JObject ms
                \<and> map_of ms (lit ''type'') = Some (JString k)
                \<and> map_of ms (lit ''text'') = Some (JString t)) objs)"
proof -
  have "responseSchema (config (generateStorySuggestions_request b m p l)) = Some suggestionSchema"
      "responseMimeType (config (generateStorySuggestions_request b m p l)) = Some (lit ''application/json'')"
    by (simp_all add: generateStorySuggestions_request_def Let_def no_config_def)
  then show ?thesis
    using conforms_suggestionSchema [of v] by (simp add: suggestionSchema_def)
qed

theorem suggestion_request_schema_witness:
  "conforms suggestionSchema
     (JArray [JObject [(lit ''type'', JString (lit ''plot'')), (lit ''text'', JString (lit ''a''))]])
   \<and> responseMimeType (config (generateStorySuggestions_request None None (lit ''Once'') (lit ''English'')))
       = Some (lit ''application/json'')"
proof -
  let ?o = "JObject [(lit ''type'', JString (lit ''plot'')), (lit ''text'', JString (lit ''a''))]"
  have "\<exists>ms k t. ?o = JObject ms \<and> map_of ms (lit ''type'') = Some (JString k)
      \<and> map_of ms (lit ''text'') = Some (JString t)"
    by (simp add: lit_def)
  then have "\<exists>objs. JArray [?o] = JArray objs
      \<and> list_all (\<lambda>x. \<exists>ms k t. x = JObject ms
            \<and> map_of ms (lit ''type'') = Some (JString k)
            \<and> map_of ms (lit ''text'') = Some (JString t)) objs"
    by simp
  with suggestion_request_schema [of None None "lit ''Once''" "lit ''English''" "JArray [?o]"]
  show ?thesis by blast
qed

text \<open>
  The claim as worded fails on a reply that fits the schema and names a kind outside the
  three: the parsed value is returned as it is.
\<close>

theorem suggestion_kind_counterexample:
  \<open>generateStorySuggestions_result (Some (lit ''[{"type":"weather","text":"x"}]''))
     = JArray [JObject [(lit ''type'', JString (lit ''weather'')), (lit ''text'', JString (lit ''x''))]]
   \<and> conforms suggestionSchema
       (JArray [JObject [(lit ''type'', JString (lit ''weather'')), (lit ''text'', JString (lit ''x''))]])
   \<and> \<not> is_StorySuggestion
       (JObject [(lit ''type'', JString (lit ''weather'')), (lit ''text'', JString (lit ''x''))])\<close>
  by (simp add: json_eval is_StorySuggestion_def suggestionSchema_def)

subsection \<open>A failed analysis\<close>

text \<open>
  C9. When the call of the service fails, \<open>handleAnalyze\<close> ends normally: the paragraph
  becomes the placeholder and \<open>isAnalyzing\<close> becomes false, the rest of the application
  being as it was. After a handler that passed its guard, the control that was disabled
  while the call was in flight is enabled again.
\<close>

theorem handleAnalyze_failure:
  "handleAnalyze_end app (Inl e)
     = Inr (app\<lparr>state := (state app)\<lparr>isAnalyzing := False, paragraph' := ink_run_dry\<rparr>\<rparr>)
   \<and> (handleAnalyze_begin app0 = (app, Some req) \<longrightarrow>
        analyze_disabled app
        \<and> (\<exists>app'. handleAnalyze_end app (Inl e) = Inr app'
              \<and> paragraph' (state app') = ink_run_dry
              \<and> \<not> isAnalyzing (state app')
              \<and> \<not> analyze_disabled app'))"
  by (auto simp: handleAnalyze_end_def generateStoryFromMedia_outcome_def handleAnalyze_begin_def
      analyze_disabled_def bothTruthy_def truthy_def split: option.splits if_splits)

theorem handleAnalyze_failure_witness:
  "(\<exists>app req. handleAnalyze_begin
        (App_init\<lparr>state := (state App_init)\<lparr>image' := Some (lit ''data:image/png;base64,AAAA''),
                                              mediaMimeType := Some (lit ''image/png'')\<rparr>\<rparr>)
      = (app, Some req)
      \<and> analyze_disabled app
      \<and> (\<exists>app'. handleAnalyze_end app (Inl GenerationFailed) = Inr app'
            \<and> paragraph' (state app') = ink_run_dry
            \<and> \<not> isAnalyzing (state app')
            \<and> \<not> analyze_disabled app'))"
proof -
  let ?a0 = "App_init\<lparr>state := (state App_init)\<lparr>image' := Some (lit ''data:image/png;base64,AAAA''),
      mediaMimeType := Some (lit ''image/png'')\<rparr>\<rparr>"
  obtain app req where b: "handleAnalyze_begin ?a0 = (app, Some req)"
    by (simp add: handleAnalyze_begin_def bothTruthy_def lit_def App_init_def)
  from handleAnalyze_failure [of app GenerationFailed ?a0 req] b
  show ?thesis by blast
qed

subsection \<open>Playback\<close>

text \<open>The other handlers of the component are steps that leave the playback alone.\<close>

lemma other_handlers:
  "step (app, n) (fst (handleAnalyze_begin app), n)"
  "handleAnalyze_end app reply = Inr app' \<Longrightarrow> step (app, n) (app', n)"
  "step (app, n) (fst (handleGetSuggestions_begin app), n)"
  "handleGetSuggestions_end app reply = Inr app' \<Longrightarrow> step (app, n) (app', n)"
proof -
  have o: "step (app, n) (app'', n)"
    if "app'' = app\<lparr>state := state app'', activeTab := activeTab app''\<rparr>"
      and "isReading (state app'') = isReading (state app)" for app''
    using step.other [OF that(2), of n "activeTab app''"] that(1) by simp
  show "step (app, n) (fst (handleAnalyze_begin app), n)"
    by (rule o) (simp_all add: handleAnalyze_begin_def split: option.splits prod.splits)
  show "step (app, n) (fst (handleGetSuggestions_begin app), n)"
    by (rule o) (simp_all add: handleGetSuggestions_begin_def)
  show "step (app, n) (app', n)" if "handleAnalyze_end app reply = Inr app'"
    using that by (intro o) (auto simp: handleAnalyze_end_def split: sum.splits)
  show "step (app, n) (app', n)" if "handleGetSuggestions_end app reply = Inr app'"
    using that by (intro o) (auto simp: handleGetSuggestions_end_def split: sum.splits)
qed

lemma stop_fields:
  "length (stop h srcs) = length srcs"
  "j < length srcs \<Longrightarrow> playing (stop h srcs ! j) = (playing (srcs ! j) \<and> j \<noteq> h)"
  "j < length srcs \<Longrightarrow> ended_pending (stop h srcs ! j)
     = (ended_pending (srcs ! j) \<or> (j = h \<and> playing (srcs ! j)))"
  by (auto simp: stop_def nth_list_update)

lemma run_out_fields:
  "length (run_out h srcs) = length srcs"
  "j < length srcs \<Longrightarrow> playing (run_out h srcs ! j) = (playing (srcs ! j) \<and> j \<noteq> h)"
  "j < length srcs \<Longrightarrow> ended_pending (run_out h srcs ! j)
     = (ended_pending (srcs ! j) \<or> (j = h \<and> playing (srcs ! j)))"
  by (auto simp: run_out_def nth_list_update)

lemma play_idle:
  assumes "playing_set app = {}"
  shows "playing_set (play audio app) = {length (sources app)}"
    and "pending_set (play audio app) = pending_set app"
    and "audioSourceRef (play audio app) = Some (length (sources app))"
    and "state (play audio app) = state app"
proof -
  have s: "(case audioSourceRef app of None \<Rightarrow> sources app | Some h \<Rightarrow> stop h (sources app))
      = sources app"
    using assms by (auto simp: playing_set_def stop_def split: option.splits)
  show "playing_set (play audio app) = {length (sources app)}"
    using assms by (auto simp: play_def s Let_def playing_set_def nth_append)
  show "pending_set (play audio app) = pending_set app"
    by (auto simp: play_def s Let_def pending_set_def nth_append)
  show "audioSourceRef (play audio app) = Some (length (sources app))"
    by (simp add: play_def s Let_def)
  show "state (play audio app) = state app"
    by (simp add: play_def Let_def)
qed

lemma inv_read_begin:
  assumes "playback_inv (app, n)" and "handleReadAloud_begin app = (app', Some t)"
  shows "playback_inv (app', Suc n)"
proof -
  have g: "\<not> isReading (state app)" and a: "sources app' = sources app" "isReading (state app')"
    using assms(2) by (auto simp: handleReadAloud_begin_def Let_def split: if_splits option.splits)
  from assms(1) g have "n = 0 \<and> playing_set app = {} \<and> pending_set app = {}"
    by (auto simp: playback_inv_def)
  then show ?thesis using a by (simp add: playback_inv_def playing_set_def pending_set_def)
qed

lemma inv_read_ignored:
  assumes "playback_inv (app, n)" and "handleReadAloud_begin app = (app', None)"
  shows "playback_inv (app', n)"
proof -
  have "app' = app"
    using assms(2) by (auto simp: handleReadAloud_begin_def Let_def split: if_splits)
  then show ?thesis using assms(1) by simp
qed

lemma inv_read_end:
  assumes "playback_inv (app, Suc n)" and "handleReadAloud_end app narration = Inr app'"
  shows "playback_inv (app', n)"
proof -
  from assms(1) have i: "isReading (state app)" "n = 0" "playing_set app = {}" "pending_set app = {}"
    by (auto simp: playback_inv_def)
  let ?caught = "app\<lparr>state := (state app)\<lparr>isReading := False\<rparr>\<rparr>"
  from assms(2) consider "app' = ?caught" | audio where "app' = play audio app"
    by (auto simp: handleReadAloud_end_def Let_def split: sum.splits option.splits)
  then show ?thesis
  proof cases
    case 1
    then show ?thesis using i by (simp add: playback_inv_def playing_set_def pending_set_def)
  next
    case 2
    then show ?thesis using i play_idle [OF i(3), of audio] by (simp add: playback_inv_def)
  qed
qed

lemma inv_runs_out:
  assumes "playback_inv (app, n)" and "h < length (sources app)" and "playing (sources app ! h)"
  shows "playback_inv (app\<lparr>sources := run_out h (sources app)\<rparr>, n)"
proof -
  let ?app = "app\<lparr>sources := run_out h (sources app)\<rparr>"
  have h: "h \<in> playing_set app" using assms(2,3) by (simp add: playing_set_def)
  with assms(1) have i: "isReading (state app)" "n = 0" "pending_set app = {}" "playing_set app = {h}"
    by (auto simp: playback_inv_def)
  have "playing_set ?app = playing_set app - {h}"
    by (auto simp: playing_set_def run_out_fields)
  moreover have "pending_set ?app = pending_set app \<union> {h}"
    using assms(2,3) by (auto simp: pending_set_def run_out_fields)
  ultimately show ?thesis using i by (simp add: playback_inv_def)
qed

lemma inv_ended:
  assumes "playback_inv (app, n)" and "h < length (sources app)" and "ended_pending (sources app ! h)"
  shows "playback_inv (dispatch_ended h app, n)"
proof -
  have h: "h \<in> pending_set app" using assms(2,3) by (simp add: pending_set_def)
  with assms(1) have i: "n = 0" "playing_set app = {}" "pending_set app = {h}"
    by (auto simp: playback_inv_def)
  have "playing_set (dispatch_ended h app) = playing_set app"
    using assms(2,3) by (auto simp: dispatch_ended_def playing_set_def nth_list_update)
  moreover have "pending_set (dispatch_ended h app) = pending_set app - {h}"
    using assms(2,3) by (auto simp: dispatch_ended_def pending_set_def nth_list_update)
  ultimately show ?thesis using i by (simp add: playback_inv_def)
qed

lemma inv_other:
  assumes "playback_inv (app, n)" and "isReading s = isReading (state app)"
  shows "playback_inv (app\<lparr>state := s, activeTab := t\<rparr>, n)"
  using assms by (simp add: playback_inv_def playing_set_def pending_set_def)

lemma inv_step: "step c c' \<Longrightarrow> playback_inv c \<Longrightarrow> playback_inv c'"
  by (induction rule: step.induct)
    (blast intro: inv_read_begin inv_read_ignored inv_read_end inv_runs_out inv_ended inv_other)+

lemma inv_reachable: "reachable c \<Longrightarrow> playback_inv c"
proof (induction rule: reachable.induct)
  case start
  show ?case by (simp add: playback_inv_def playing_set_def pending_set_def App_init_def)
next
  case (after c c')
  then show ?case using inv_step by blast
qed


lemma play_exclusive:
  assumes "\<forall>j < length (sources app). playing (sources app ! j) \<longrightarrow> audioSourceRef app = Some j"
    and "j < length (sources (play audio app))"
  shows "playing (sources (play audio app) ! j) = (j = length (sources app))"
proof -
  let ?srcs = "case audioSourceRef app of None \<Rightarrow> sources app | Some h \<Rightarrow> stop h (sources app)"
  have l: "length ?srcs = length (sources app)"
    by (simp add: stop_fields split: option.splits)
  have q: "\<not> playing (?srcs ! i)" if "i < length (sources app)" for i
    using assms(1) that by (auto simp: stop_fields split: option.splits)
  have "sources (play audio app) = ?srcs @ [\<lparr>buffer = audio, playing = True, ended_pending = False\<rparr>]"
    by (simp add: play_def Let_def)
  then show ?thesis
    using assms(2) l q by (auto simp: nth_append)
qed

lemma example_begin: "handleReadAloud_begin story_ready = (narration_awaited, Some (lit ''Once''))"
  by (simp add: handleReadAloud_begin_def story_ready_def narration_awaited_def App_init_def
      lit_def Let_def)

lemma example_decode:
  "decodeAudioData (Uint8Array_of [0x00, 0x40]) newAudioContext 24000 1
     = Inr \<lparr>numberOfChannels = 1, length' = 1, sampleRate = 24000, channels = [[Num (1 / 2)]]\<rparr>"
proof -
  have "int16At [0x00, 0x40] 0 = 16384"
    by (simp add: int16At_def word_cat_eq)
  then show ?thesis
    using decodeAudioData_even [of "Uint8Array_of [0x00, 0x40]" 1 newAudioContext 24000]
    by (simp add: newAudioContext_def Uint8Array_of_def)
qed

lemma example_end: "handleReadAloud_end narration_awaited (Inr [0x00, 0x40]) = Inr narration_playing"
proof -
  let ?audio = "\<lparr>numberOfChannels = 1, length' = 1, sampleRate = 24000, channels = [[Num (1 / 2)]]\<rparr>"
  have a: "audioContextRef narration_awaited = Some newAudioContext"
    by (simp add: narration_awaited_def)
  have "handleReadAloud_end narration_awaited (Inr [0x00, 0x40]) = Inr (play ?audio narration_awaited)"
    unfolding handleReadAloud_end_def Let_def by (simp add: a example_decode del: One_nat_def)
  moreover have "play ?audio narration_awaited = narration_playing"
    by (simp add: play_def Let_def narration_playing_def narration_awaited_def story_ready_def
        App_init_def)
  ultimately show ?thesis by simp
qed

lemma example_ignored: "handleReadAloud_begin narration_playing = (narration_playing, None)"
  by (simp add: handleReadAloud_begin_def narration_playing_def narration_awaited_def)

lemma example_reachable: "reachable (narration_playing, 0)"
proof -
  have "story_ready = App_init\<lparr>state := state story_ready, activeTab := Chat\<rparr>"
    by (simp add: story_ready_def App_init_def)
  moreover have "step (App_init, 0) (App_init\<lparr>state := state story_ready, activeTab := Chat\<rparr>, 0)"
    by (rule step.other) (simp add: story_ready_def App_init_def)
  ultimately have "step (App_init, 0) (story_ready, 0)" by simp
  with reachable.start have "reachable (story_ready, 0)" by (rule reachable.after)
  then have "reachable (narration_awaited, Suc 0)"
    using step.read_begin [OF example_begin] by (rule reachable.after)
  then show ?thesis
    using step.read_end [OF example_end] by (rule reachable.after)
qed

text \<open>
  C6, as the code has it. In every state the application can reach, at most one source
  is playing. While a source is playing \<open>isReading\<close> is set, so a further call of
  \<open>handleReadAloud\<close> returns at its guard and changes nothing: a playing narration is
  not pre-empted. Whenever the playback block runs, the source it starts is afterwards
  the only one playing, the one recorded before having been stopped first, and the new
  source is the recorded one.
\<close>

theorem playback_exclusive:
  assumes "reachable (app, n)"
  shows "(\<forall>h j. h < length (sources app) \<and> j < length (sources app)
            \<and> playing (sources app ! h) \<and> playing (sources app ! j) \<longrightarrow> h = j)
    \<and> ((\<exists>h < length (sources app). playing (sources app ! h)) \<longrightarrow>
          isReading (state app) \<and> handleReadAloud_begin app = (app, None))
    \<and> (\<forall>audio j. j < length (sources (play audio app)) \<longrightarrow>
          playing (sources (play audio app) ! j) = (j = length (sources app)))
    \<and> (\<forall>audio. audioSourceRef (play audio app) = Some (length (sources app)))"
proof -
  have i: "playback_inv (app, n)"
    using assms by (rule inv_reachable)
  have one: "h = j" if "h \<in> playing_set app" "j \<in> playing_set app" for h j
    using i that by (auto simp: playback_inv_def)
  have busy: "isReading (state app)" if "h \<in> playing_set app" for h
    using i that by (auto simp: playback_inv_def)
  have rec: "audioSourceRef app = Some h" if "h \<in> playing_set app" for h
    using i that by (auto simp: playback_inv_def)
  have len: "length (case audioSourceRef app of None \<Rightarrow> sources app | Some h \<Rightarrow> stop h (sources app))
      = length (sources app)"
    by (simp add: stop_fields split: option.splits)
  show ?thesis
  proof (intro conjI allI impI)
    fix h j
    assume "h < length (sources app) \<and> j < length (sources app)
        \<and> playing (sources app ! h) \<and> playing (sources app ! j)"
    then show "h = j" using one [of h j] by (simp add: playing_set_def)
  next
    assume "\<exists>h < length (sources app). playing (sources app ! h)"
    then obtain h where "h \<in> playing_set app" by (auto simp: playing_set_def)
    then show "isReading (state app)" by (rule busy)
  next
    assume "\<exists>h < length (sources app). playing (sources app ! h)"
    then obtain h where "h \<in> playing_set app" by (auto simp: playing_set_def)
    then have "isReading (state app)" by (rule busy)
    then show "handleReadAloud_begin app = (app, None)"
      by (simp add: handleReadAloud_begin_def)
  next
    fix audio j
    assume "j < length (sources (play audio app))"
    moreover have "\<forall>j < length (sources app). playing (sources app ! j) \<longrightarrow> audioSourceRef app = Some j"
      using rec by (simp add: playing_set_def)
    ultimately show "playing (sources (play audio app) ! j) = (j = length (sources app))"
      using play_exclusive by blast
  next
    fix audio
    show "audioSourceRef (play audio app) = Some (length (sources app))"
      by (simp add: play_def Let_def len)
  qed
qed

theorem playback_exclusive_witness:
  "reachable (narration_playing, 0)
   \<and> playing (sources narration_playing ! 0)
   \<and> isReading (state narration_playing)
   \<and> handleReadAloud_begin narration_playing = (narration_playing, None)
   \<and> \<not> playing (sources (play (buffer (sources narration_playing ! 0)) narration_playing) ! 0)
   \<and> playing (sources (play (buffer (sources narration_playing ! 0)) narration_playing) ! 1)"
proof -
  have p: "(0::nat) < length (sources narration_playing)" "playing (sources narration_playing ! 0)"
    by (simp_all add: narration_playing_def)
  have l: "length (sources (play (buffer (sources narration_playing ! 0)) narration_playing)) = 2"
    by (simp add: play_def Let_def narration_playing_def stop_def)
  from playback_exclusive [OF example_reachable] p
  have a: "isReading (state narration_playing)"
      "handleReadAloud_begin narration_playing = (narration_playing, None)"
    and b: "\<forall>audio j. j < length (sources (play audio narration_playing)) \<longrightarrow>
          playing (sources (play audio narration_playing) ! j) = (j = length (sources narration_playing))"
    by blast+
  from b l have "\<not> playing (sources (play (buffer (sources narration_playing ! 0)) narration_playing) ! 0)"
      "playing (sources (play (buffer (sources narration_playing ! 0)) narration_playing) ! 1)"
    by (simp_all add: narration_playing_def)
  with example_reachable p a show ?thesis by simp
qed

text \<open>
  The claim as worded fails: with a narration playing, a second request is dropped at
  the guard. The first source goes on playing and no second one is made.
\<close>

theorem playback_preempt_counterexample:
  "handleReadAloud_begin story_ready = (narration_awaited, Some (lit ''Once''))
   \<and> handleReadAloud_end narration_awaited (Inr [0x00, 0x40]) = Inr narration_playing
   \<and> map playing (sources narration_playing) = [True]
   \<and> handleReadAloud_begin narration_playing = (narration_playing, None)"
  using example_begin example_end example_ignored by (simp add: narration_playing_def)

end
